theory Spec2Isabelle
  imports
    Main
    "HOL-Library.AList"
    "HOL-Library.Char_ord"
    "HOL-Library.List_Lexorder"
    "HOL-Library.Multiset"
begin

section \<open>Strings and pure paths\<close>

text \<open>
  The program is \<^verbatim>\<open>src/train/fix_unmatched_images.py\<close>. A Python string is modelled by the
  HOL string of its UTF-8 bytes: the dot and the slash are single bytes that occur in no
  other character's encoding, so that cutting a string at a dot or at a slash, and
  comparing two strings, give the same results on the bytes as on the code points.
  \<^verbatim>\<open>str.lower\<close> is a table of the Unicode database and not code of the program: it is the
  parameter \<open>lc\<close> of \<open>build_key\<close> and of the functions that call it, and the statements
  below hold for every \<open>lc\<close> or name what they need of it. \<open>ascii_lower\<close>, which agrees with
  \<^verbatim>\<open>str.lower\<close> on ASCII strings, is used where a statement is evaluated on an example.
\<close>

definition ascii_lower_char :: "char \<Rightarrow> char" where
  "ascii_lower_char c =
     (case map_of (zip ''ABCDEFGHIJKLMNOPQRSTUVWXYZ'' ''abcdefghijklmnopqrstuvwxyz'') c of
        None \<Rightarrow> c
      | Some d \<Rightarrow> d)"

definition ascii_lower :: "string \<Rightarrow> string" where
  "ascii_lower s = map ascii_lower_char s"

text \<open>
  \<^verbatim>\<open>s.rfind(c)\<close>: the highest index at which \<open>c\<close> occurs in \<open>s\<close>, and \<open>-1\<close> when it does
  not occur.
\<close>

fun rfind :: "string \<Rightarrow> char \<Rightarrow> int" where
  "rfind [] c = - 1"
| "rfind (x # xs) c =
     (let r = rfind xs c
      in if 0 \<le> r then r + 1 else if x = c then 0 else - 1)"

text \<open>\<^verbatim>\<open>s.split(sep)\<close> for a one-character separator: never empty, keeps empty pieces.\<close>

fun split_sep :: "char \<Rightarrow> string \<Rightarrow> string list" where
  "split_sep c [] = [[]]"
| "split_sep c (x # xs) =
     (if x = c then [] # split_sep c xs
      else (case split_sep c xs of
              [] \<Rightarrow> [[x]]
            | w # ws \<Rightarrow> (x # w) # ws))"

text \<open>
  \<^verbatim>\<open>Path(name)\<close>, POSIX flavour, as pathlib parses it: the string is cut at every slash, and
  empty pieces and the piece \<^verbatim>\<open>.\<close> are dropped. \<^verbatim>\<open>.name\<close> is the last remaining piece, or the
  empty string when there is none. \<^verbatim>\<open>.suffix\<close> and \<^verbatim>\<open>.stem\<close> follow pathlib (Python 3.8 to
  3.13): with \<open>i = name.rfind('.')\<close>, the suffix is \<open>name[i:]\<close> when \<open>0 < i < len(name) - 1\<close>
  and empty otherwise, and the stem is the rest of the name.
\<close>

definition pure_path_parts :: "string \<Rightarrow> string list" where
  "pure_path_parts s = filter (\<lambda>x. x \<noteq> [] \<and> x \<noteq> ''.'') (split_sep CHR ''/'' s)"

definition pure_path_name :: "string \<Rightarrow> string" where
  "pure_path_name s =
     (let tail = pure_path_parts s in if tail = [] then [] else last tail)"

definition name_suffix :: "string \<Rightarrow> string" where
  "name_suffix name =
     (let i = rfind name CHR ''.''
      in if 0 < i \<and> i < int (length name) - 1 then drop (nat i) name else [])"

definition name_stem :: "string \<Rightarrow> string" where
  "name_stem name =
     (let i = rfind name CHR ''.''
      in if 0 < i \<and> i < int (length name) - 1 then take (nat i) name else name)"

definition pure_path_stem :: "string \<Rightarrow> string" where
  "pure_path_stem s = name_stem (pure_path_name s)"

section \<open>Key construction\<close>

text \<open>
  \<^verbatim>\<open>build_key\<close> (lines 24 to 27): the stem or the name of \<^verbatim>\<open>Path(name)\<close>, then \<^verbatim>\<open>key.lower()\<close>
  when \<open>ignore_case\<close> is set.
\<close>

definition build_key :: "(string \<Rightarrow> string) \<Rightarrow> string \<Rightarrow> bool \<Rightarrow> bool \<Rightarrow> string" where
  "build_key lc name ignore_ext ignore_case =
     (let key = (if ignore_ext then pure_path_stem name else pure_path_name name)
      in if ignore_case then lc key else key)"

section \<open>Paths and the file system\<close>

text \<open>
  A \<^verbatim>\<open>Path\<close> object is modelled by its parsed components: the absolute path \<^verbatim>\<open>/d/train\<close> is
  \<open>[''d'', ''train'']\<close>. POSIX keeps a root of exactly two slashes apart from the root of one
  slash, and so does pathlib: such a path carries an empty first component, so that
  \<^verbatim>\<open>//d/train\<close> is \<open>[[], ''d'', ''train'']\<close>; no other component is ever empty. \<^verbatim>\<open>p / s\<close> parses
  the string \<open>s\<close> and appends its components; a string that starts with a slash is
  absolute and replaces \<open>p\<close>, with the root of two slashes when it starts with exactly two.
  \<^verbatim>\<open>p.name\<close> is the last component. Python compares two paths by their component lists,
  which is the lexicographic order of lists of strings used by \<open>sort\<close> below.
\<close>

type_synonym path = "string list"

definition two_slashes :: "string \<Rightarrow> bool" where
  "two_slashes s = (take 2 s = ''//'' \<and> take 3 s \<noteq> ''///'')"

definition joinpath :: "path \<Rightarrow> string \<Rightarrow> path" where
  "joinpath p s =
     (if two_slashes s then [] # pure_path_parts s
      else if s \<noteq> [] \<and> hd s = CHR ''/'' then pure_path_parts s
      else p @ pure_path_parts s)"

definition double_root :: "path \<Rightarrow> bool" where
  "double_root p = (p \<noteq> [] \<and> hd p = [])"

definition path_name :: "path \<Rightarrow> string" where
  "path_name p = (if p = [] then [] else last p)"

fun join_sep :: "string \<Rightarrow> string list \<Rightarrow> string" where
  "join_sep sep [] = []"
| "join_sep sep [x] = x"
| "join_sep sep (x # y # ys) = x @ sep @ join_sep sep (y # ys)"

text \<open>\<^verbatim>\<open>str(p)\<close> of an absolute path, and of a relative one (\<^verbatim>\<open>.\<close> when it has no component).\<close>

definition str_path :: "path \<Rightarrow> string" where
  "str_path p =
     (if double_root p then ''//'' @ join_sep ''/'' (tl p) else CHR ''/'' # join_sep ''/'' p)"

definition str_relative :: "string list \<Rightarrow> string" where
  "str_relative ps = (if ps = [] then ''.'' else join_sep ''/'' ps)"

text \<open>
  \<^verbatim>\<open>human_relpath\<close> (lines 56 to 60): \<^verbatim>\<open>p.relative_to(root)\<close> raises when the two paths have
  different roots or \<open>root\<close> is not a prefix of \<open>p\<close>, and the handler falls back to
  \<^verbatim>\<open>str(p)\<close>.
\<close>

definition human_relpath :: "path \<Rightarrow> path \<Rightarrow> string" where
  "human_relpath p root =
     (if double_root p = double_root root \<and> take (length root) p = root
      then str_relative (drop (length root) p)
      else str_path p)"

text \<open>
  The file system is the environment of the program. It is modelled as an association
  list from paths, as the program spells them, to entries, read through \<open>map_of\<close>; the
  order of the list is the order in which the operating system lists a directory. An
  entry records what \<^verbatim>\<open>stat\<close> finds behind the path after following symbolic links
  (\<open>Dangling\<close>: a symbolic link whose target is missing, which a directory listing shows
  but \<^verbatim>\<open>exists()\<close> denies), and the error, if any, with which the operating system
  refuses to unlink the entry (permissions, I/O).

  The operating system can also fail a query. pathlib (Python 3.8 to 3.13) reads the
  errors \<^verbatim>\<open>ENOENT\<close>, \<^verbatim>\<open>ENOTDIR\<close>, \<^verbatim>\<open>EBADF\<close> and \<^verbatim>\<open>ELOOP\<close> of \<^verbatim>\<open>stat\<close> as the answer that nothing
  exists, which is a path with no entry here, and raises every other one, such as
  \<^verbatim>\<open>ENAMETOOLONG\<close> and \<^verbatim>\<open>EACCES\<close>; reading a directory raises its errors too. These errors are
  the second part of the environment: \<open>flt call p\<close> is the error, if any, with which the
  system call \<open>call\<close> fails on the path \<open>p\<close>. A function of the program that makes such a
  call returns a sum, \<open>Inl\<close> the error that it lets propagate as an exception.
\<close>

datatype kind = Regular | Directory | Special | Dangling

datatype os_error = PermissionDenied | IsADirectory | IOFailure | NameTooLong

datatype syscall = Stat | ScanDir

type_synonym faults = "syscall \<Rightarrow> string list \<Rightarrow> os_error option"

record entry =
  kind :: kind
  unlink_error :: "os_error option"

type_synonym fs = "(path \<times> entry) list"

definition path_exists :: "faults \<Rightarrow> fs \<Rightarrow> path \<Rightarrow> os_error + bool" where
  "path_exists flt fs p =
     (case flt Stat p of
        Some err \<Rightarrow> Inl err
      | None \<Rightarrow> Inr (case map_of fs p of None \<Rightarrow> False | Some e \<Rightarrow> kind e \<noteq> Dangling))"

definition is_dir :: "faults \<Rightarrow> fs \<Rightarrow> path \<Rightarrow> os_error + bool" where
  "is_dir flt fs p =
     (case flt Stat p of
        Some err \<Rightarrow> Inl err
      | None \<Rightarrow> Inr (case map_of fs p of None \<Rightarrow> False | Some e \<Rightarrow> kind e = Directory))"

definition is_file :: "faults \<Rightarrow> fs \<Rightarrow> path \<Rightarrow> os_error + bool" where
  "is_file flt fs p =
     (case flt Stat p of
        Some err \<Rightarrow> Inl err
      | None \<Rightarrow> Inr (case map_of fs p of None \<Rightarrow> False | Some e \<Rightarrow> kind e = Regular))"

definition iterdir :: "faults \<Rightarrow> fs \<Rightarrow> path \<Rightarrow> os_error + path list" where
  "iterdir flt fs d =
     (case flt ScanDir d of
        Some err \<Rightarrow> Inl err
      | None \<Rightarrow> Inr (filter (\<lambda>p. p \<noteq> [] \<and> butlast p = d) (remdups (map fst fs))))"

text \<open>
  \<^verbatim>\<open>f.unlink(missing_ok=True)\<close>: a path with no entry raises \<^verbatim>\<open>FileNotFoundError\<close>, which
  \<^verbatim>\<open>missing_ok\<close> swallows; a directory cannot be unlinked; an entry the operating system
  protects fails with its error; any other entry is removed. Two cases of the real call
  are not told apart: a symbolic link to a directory, which has the kind \<open>Directory\<close> here
  and which the real call removes, and a path with no entry below a path that is not a
  directory, which the real call refuses. Neither is a path that \<open>list_files\<close> returns.
\<close>

definition unlink :: "fs \<Rightarrow> path \<Rightarrow> os_error + fs" where
  "unlink fs p =
     (case map_of fs p of
        None \<Rightarrow> Inr fs
      | Some e \<Rightarrow>
          (if kind e = Directory then Inl IsADirectory
           else (case unlink_error e of
                   Some err \<Rightarrow> Inl err
                 | None \<Rightarrow> Inr (AList.delete p fs))))"

section \<open>Listing, indexing and orphan computation\<close>

text \<open>
  \<^verbatim>\<open>list_files\<close> (lines 29 to 33). \<open>keep_files\<close> is the comprehension of line 33, which asks
  \<^verbatim>\<open>is_file()\<close> of each listed path in turn and stops at the first error.
\<close>

fun keep_files :: "faults \<Rightarrow> fs \<Rightarrow> path list \<Rightarrow> os_error + path list" where
  "keep_files flt fs [] = Inr []"
| "keep_files flt fs (p # ps) =
     (case is_file flt fs p of
        Inl err \<Rightarrow> Inl err
      | Inr b \<Rightarrow>
          (case keep_files flt fs ps of
             Inl err \<Rightarrow> Inl err
           | Inr qs \<Rightarrow> Inr (if b then p # qs else qs)))"

definition list_files :: "faults \<Rightarrow> fs \<Rightarrow> path \<Rightarrow> os_error + path list" where
  "list_files flt fs d =
     (case path_exists flt fs d of
        Inl err \<Rightarrow> Inl err
      | Inr ex \<Rightarrow>
          if \<not> ex then Inr []
          else (case is_dir flt fs d of
                  Inl err \<Rightarrow> Inl err
                | Inr dir \<Rightarrow>
                    if \<not> dir then Inr []
                    else (case iterdir flt fs d of
                            Inl err \<Rightarrow> Inl err
                          | Inr ps \<Rightarrow> keep_files flt fs ps)))"

text \<open>
  A \<^verbatim>\<open>Dict[str, List[Path]]\<close> is an association list in insertion order, read through
  \<open>map_of\<close>. \<^verbatim>\<open>m.setdefault(k, []).append(f)\<close> adds the key at the end when it is new and
  extends its list in place otherwise.
\<close>

type_synonym keymap = "(string \<times> path list) list"

definition dict_keys :: "keymap \<Rightarrow> string list" where
  "dict_keys m = remdups (map fst m)"

definition dict_get :: "keymap \<Rightarrow> string \<Rightarrow> path list \<Rightarrow> path list" where
  "dict_get m k d = (case map_of m k of None \<Rightarrow> d | Some v \<Rightarrow> v)"

definition setdefault_append :: "keymap \<Rightarrow> string \<Rightarrow> path \<Rightarrow> keymap" where
  "setdefault_append m k f =
     (case map_of m k of
        None \<Rightarrow> m @ [(k, [f])]
      | Some v \<Rightarrow> AList.update k (v @ [f]) m)"

text \<open>\<^verbatim>\<open>collect_keys_map\<close> (lines 35 to 40): the loop over \<open>files\<close>, starting from the empty dict.\<close>

definition collect_keys_map ::
  "(string \<Rightarrow> string) \<Rightarrow> path list \<Rightarrow> bool \<Rightarrow> bool \<Rightarrow> keymap" where
  "collect_keys_map lc files ignore_ext ignore_case =
     foldl (\<lambda>m f. setdefault_append m (build_key lc (path_name f) ignore_ext ignore_case) f)
       [] files"

text \<open>
  A Python \<^verbatim>\<open>set\<close> of strings is iterated in an order fixed by the hashes of its elements,
  which the program does not control. The hash is the parameter \<open>h\<close>: the elements are
  visited by increasing hash.
\<close>

definition set_iter :: "(string \<Rightarrow> nat) \<Rightarrow> string list \<Rightarrow> string list" where
  "set_iter h ks = sort_key h (remdups ks)"

text \<open>\<^verbatim>\<open>compute_orphans\<close> (lines 42 to 54).\<close>

definition compute_orphans ::
  "(string \<Rightarrow> nat) \<Rightarrow> keymap \<Rightarrow> keymap \<Rightarrow> path list \<times> path list" where
  "compute_orphans h image_map index_map =
     (let image_keys = dict_keys image_map;
          index_keys = dict_keys index_map;
          only_in_image = filter (\<lambda>k. k \<notin> set index_keys) image_keys;
          only_in_index = filter (\<lambda>k. k \<notin> set image_keys) index_keys;
          orphan_image_files =
            concat (map (\<lambda>k. dict_get image_map k []) (set_iter h only_in_image));
          orphan_index_files =
            concat (map (\<lambda>k. dict_get index_map k []) (set_iter h only_in_index))
      in (orphan_image_files, orphan_index_files))"

section \<open>Deletion\<close>

text \<open>
  \<^verbatim>\<open>delete_files\<close> (lines 62 to 71). An error entry is the f-string \<^verbatim>\<open>{f}: {e}\<close>, kept as
  the pair of the path's string and the error. The file system is threaded through the
  loop and returned with the count and the errors.
\<close>

type_synonym del_error = "string \<times> os_error"

fun delete_loop ::
  "fs \<Rightarrow> path list \<Rightarrow> nat \<Rightarrow> del_error list \<Rightarrow> nat \<times> del_error list \<times> fs" where
  "delete_loop fs [] deleted errors = (deleted, errors, fs)"
| "delete_loop fs (f # files) deleted errors =
     (case unlink fs f of
        Inr fs' \<Rightarrow> delete_loop fs' files (deleted + 1) errors
      | Inl e \<Rightarrow> delete_loop fs files deleted (errors @ [(str_path f, e)]))"

definition delete_files :: "fs \<Rightarrow> path list \<Rightarrow> nat \<times> del_error list \<times> fs" where
  "delete_files fs files = delete_loop fs files 0 []"

section \<open>Processing one split\<close>

text \<open>
  The report and the error text of \<^verbatim>\<open>process_split\<close> (lines 73 to 135) are lists of lines
  joined by newlines. A line is modelled by the f-string that produces it, with the
  values it interpolates:
  \<^item> \<open>SplitMissing split rel\<close>: line 90, the split directory does not exist;
  \<^item> \<open>SubdirMissing split image_dirname index_dirname\<close>: line 94, a subdirectory is missing;
  \<^item> \<open>MissingPath rel\<close>: lines 96 and 98, the missing subdirectory;
  \<^item> \<open>ScanDone split n_image n_index\<close>: line 109, the numbers of files scanned;
  \<^item> \<open>OrphanImageCount n\<close>, \<open>OrphanIndexCount n\<close>: lines 110 and 116;
  \<^item> \<open>PreviewItem rel\<close>: lines 112 and 118, one orphan of the preview;
  \<^item> \<open>TotalLine n\<close>: lines 114 and 120, an ellipsis followed by the total \<open>n\<close>;
  \<^item> \<open>DeletedImage k n\<close>, \<open>DeletedIndex k n\<close>: lines 126 and 127, \<open>k\<close> deleted out of \<open>n\<close>;
  \<^item> \<open>DryRun\<close>: line 133, nothing was deleted;
  \<^item> \<open>DeleteFailedImage split e\<close>, \<open>DeleteFailedIndex split e\<close>: lines 130 and 131.
\<close>

datatype report_line =
    SplitMissing string string
  | SubdirMissing string string string
  | MissingPath string
  | ScanDone string nat nat
  | OrphanImageCount nat
  | OrphanIndexCount nat
  | PreviewItem string
  | TotalLine nat
  | DeletedImage nat nat
  | DeletedIndex nat nat
  | DryRun

datatype error_line =
    DeleteFailedImage string del_error
  | DeleteFailedIndex string del_error

definition preview_lines :: "path \<Rightarrow> path list \<Rightarrow> report_line list" where
  "preview_lines root orphans =
     map (\<lambda>p. PreviewItem (human_relpath p root)) (take 10 (sort orphans))
     @ (if length orphans > 10 then [TotalLine (length orphans)] else [])"

text \<open>
  \<open>process_split\<close> returns the file system with its result. The result is \<open>Inl\<close> an error
  when a query of lines 89 to 102 raises, which happens before any removal, and \<open>Inr\<close>
  the report and the error lines otherwise. Line 93 asks \<^verbatim>\<open>exists()\<close> of the image directory
  and then, in the condition or at line 97, of the index directory, whatever the first
  answer is.
\<close>

definition process_split ::
  "(string \<Rightarrow> nat) \<Rightarrow> (string \<Rightarrow> string) \<Rightarrow> faults \<Rightarrow> fs \<Rightarrow> path \<Rightarrow> string \<Rightarrow> string \<Rightarrow> string
     \<Rightarrow> bool \<Rightarrow> bool \<Rightarrow> bool
     \<Rightarrow> (os_error + report_line list \<times> error_line list) \<times> fs" where
  "process_split h lc flt fs root split image_dirname index_dirname ignore_ext ignore_case
     do_delete =
     (let split_root = joinpath root split;
          image_dir = joinpath split_root image_dirname;
          index_dir = joinpath split_root index_dirname
      in
        case path_exists flt fs split_root of
          Inl err \<Rightarrow> (Inl err, fs)
        | Inr split_there \<Rightarrow>
        if \<not> split_there then
          (Inr ([SplitMissing split (human_relpath split_root root)], []), fs)
        else
        case path_exists flt fs image_dir of
          Inl err \<Rightarrow> (Inl err, fs)
        | Inr image_there \<Rightarrow>
        case path_exists flt fs index_dir of
          Inl err \<Rightarrow> (Inl err, fs)
        | Inr index_there \<Rightarrow>
        if \<not> image_there \<or> \<not> index_there then
          (Inr ([SubdirMissing split image_dirname index_dirname]
                @ (if \<not> image_there
                   then [MissingPath (human_relpath image_dir root)] else [])
                @ (if \<not> index_there
                   then [MissingPath (human_relpath index_dir root)] else []),
                []),
           fs)
        else
        case list_files flt fs image_dir of
          Inl err \<Rightarrow> (Inl err, fs)
        | Inr image_files \<Rightarrow>
        case list_files flt fs index_dir of
          Inl err \<Rightarrow> (Inl err, fs)
        | Inr index_files \<Rightarrow>
          let image_map = collect_keys_map lc image_files ignore_ext ignore_case;
              index_map = collect_keys_map lc index_files ignore_ext ignore_case;
              (orphan_img, orphan_idx) = compute_orphans h image_map index_map;
              report_lines =
                [ScanDone split (length image_files) (length index_files),
                 OrphanImageCount (length orphan_img)]
                @ preview_lines root orphan_img
                @ [OrphanIndexCount (length orphan_idx)]
                @ preview_lines root orphan_idx
          in
            if do_delete then
              let (del_count_img, del_err_img, fs1) = delete_files fs orphan_img;
                  (del_count_idx, del_err_idx, fs2) = delete_files fs1 orphan_idx
              in (Inr (report_lines
                       @ [DeletedImage del_count_img (length orphan_img),
                          DeletedIndex del_count_idx (length orphan_idx)],
                       (if del_err_img \<noteq> [] \<or> del_err_idx \<noteq> []
                        then map (DeleteFailedImage split) del_err_img
                             @ map (DeleteFailedIndex split) del_err_idx
                        else [])),
                  fs2)
            else (Inr (report_lines @ [DryRun], []), fs))"

section \<open>Outcome of a removal\<close>

text \<open>
  Vocabulary for the statements about deletion, derived from \<open>unlink\<close>: the error with
  which unlinking \<open>p\<close> fails in the file system \<open>fs\<close>, if it fails, and the error entries
  that a list of files yields when each file is judged in \<open>fs\<close>.
\<close>

definition unlink_failure :: "fs \<Rightarrow> path \<Rightarrow> os_error option" where
  "unlink_failure fs p = (case unlink fs p of Inl e \<Rightarrow> Some e | Inr fs' \<Rightarrow> None)"

definition failure_entries :: "fs \<Rightarrow> path list \<Rightarrow> del_error list" where
  "failure_entries fs files =
     concat (map (\<lambda>f. case unlink_failure fs f of
                         None \<Rightarrow> []
                       | Some e \<Rightarrow> [(str_path f, e)]) files)"

text \<open>
  The lines that \<open>process_split\<close> reports after a scan that listed \<open>image_files\<close> and
  \<open>index_files\<close> (lines 109 to 120), before the lines of the deletion or of the dry run.
\<close>

definition scan_report ::
  "(string \<Rightarrow> nat) \<Rightarrow> (string \<Rightarrow> string) \<Rightarrow> path \<Rightarrow> string \<Rightarrow> path list \<Rightarrow> path list
     \<Rightarrow> bool \<Rightarrow> bool \<Rightarrow> report_line list" where
  "scan_report h lc root split image_files index_files ie ic =
    (let orphans = compute_orphans h (collect_keys_map lc image_files ie ic)
                     (collect_keys_map lc index_files ie ic)
     in [ScanDone split (length image_files) (length index_files),
         OrphanImageCount (length (fst orphans))]
        @ preview_lines root (fst orphans)
        @ [OrphanIndexCount (length (snd orphans))]
        @ preview_lines root (snd orphans))"

section \<open>Example trees\<close>

text \<open>
  Two datasets on which the functions are evaluated below. In \<open>demo_fs\<close>, under \<^verbatim>\<open>/d\<close>, the
  split \<^verbatim>\<open>train\<close> has three images and three index files, one of them protected against
  removal, and a subdirectory, a socket and a dangling link beside the images; the split
  \<^verbatim>\<open>valid\<close> has an image but no index directory. In \<open>preview_fs\<close>, under \<^verbatim>\<open>/p\<close>, the split
  \<^verbatim>\<open>test\<close> has eleven images, listed out of order, and an empty index directory. In
  \<open>slip_fs\<close>, under \<^verbatim>\<open>/s\<close>, the split \<^verbatim>\<open>train\<close> has a regular file named \<^verbatim>\<open>image\<close> where the
  image directory should be, and two index files. \<open>no_faults\<close> is an operating system that
  answers every query; \<open>long_name_faults\<close> is one that refuses, as Linux does, a path with a
  component of more than 255 bytes.
\<close>

definition no_faults :: faults where
  "no_faults call p = None"

definition long_name_faults :: faults where
  "long_name_faults call p = (if list_ex (\<lambda>c. 255 < length c) p then Some NameTooLong else None)"

definition plain_file :: entry where
  "plain_file = \<lparr>kind = Regular, unlink_error = None\<rparr>"

definition protected_file :: entry where
  "protected_file = \<lparr>kind = Regular, unlink_error = Some PermissionDenied\<rparr>"

definition directory :: entry where
  "directory = \<lparr>kind = Directory, unlink_error = None\<rparr>"

definition demo_fs :: fs where
  "demo_fs =
     [([''d''], directory),
      ([''d'', ''train''], directory),
      ([''d'', ''train'', ''image''], directory),
      ([''d'', ''train'', ''index''], directory),
      ([''d'', ''train'', ''image'', ''b.jpg''], plain_file),
      ([''d'', ''train'', ''image'', ''sub''], directory),
      ([''d'', ''train'', ''image'', ''a.jpg''], plain_file),
      ([''d'', ''train'', ''image'', ''sock''], \<lparr>kind = Special, unlink_error = None\<rparr>),
      ([''d'', ''train'', ''image'', ''c.jpg''], plain_file),
      ([''d'', ''train'', ''image'', ''lnk''], \<lparr>kind = Dangling, unlink_error = None\<rparr>),
      ([''d'', ''train'', ''index'', ''a.idx''], plain_file),
      ([''d'', ''train'', ''index'', ''d.idx''], protected_file),
      ([''d'', ''train'', ''index'', ''b.idx''], plain_file),
      ([''d'', ''valid''], directory),
      ([''d'', ''valid'', ''image''], directory),
      ([''d'', ''valid'', ''image'', ''a.jpg''], plain_file)]"

definition preview_fs :: fs where
  "preview_fs =
     [([''p''], directory),
      ([''p'', ''test''], directory),
      ([''p'', ''test'', ''image''], directory),
      ([''p'', ''test'', ''index''], directory),
      ([''p'', ''test'', ''image'', ''k.png''], plain_file),
      ([''p'', ''test'', ''image'', ''c.png''], plain_file),
      ([''p'', ''test'', ''image'', ''a.png''], plain_file),
      ([''p'', ''test'', ''image'', ''e.png''], plain_file),
      ([''p'', ''test'', ''image'', ''b.png''], plain_file),
      ([''p'', ''test'', ''image'', ''j.png''], plain_file),
      ([''p'', ''test'', ''image'', ''d.png''], plain_file),
      ([''p'', ''test'', ''image'', ''g.png''], plain_file),
      ([''p'', ''test'', ''image'', ''f.png''], plain_file),
      ([''p'', ''test'', ''image'', ''i.png''], plain_file),
      ([''p'', ''test'', ''image'', ''h.png''], plain_file)]"

definition slip_fs :: fs where
  "slip_fs =
     [([''s''], directory),
      ([''s'', ''train''], directory),
      ([''s'', ''train'', ''image''], plain_file),
      ([''s'', ''train'', ''index''], directory),
      ([''s'', ''train'', ''index'', ''a.idx''], plain_file),
      ([''s'', ''train'', ''index'', ''b.idx''], plain_file)]"

section \<open>Key construction: facts\<close>

lemma split_sep_notin: "c \<notin> set s \<Longrightarrow> split_sep c s = [s]"
  by (induction s) auto

lemma split_sep_pieces: "x \<in> set (split_sep c s) \<Longrightarrow> set x \<subseteq> set s"
  by (induction s arbitrary: x) (fastforce split: if_splits list.splits)+

lemma pure_path_name_chars: "set (pure_path_name s) \<subseteq> set s"
proof (cases "pure_path_parts s = []")
  case True
  then show ?thesis by (simp add: pure_path_name_def)
next
  case False
  then have "last (pure_path_parts s) \<in> set (split_sep CHR ''/'' s)"
    using last_in_set[OF False] by (auto simp: pure_path_parts_def)
  then show ?thesis
    using False split_sep_pieces by (simp add: pure_path_name_def)
qed

lemma pure_path_name_filename:
  "s \<noteq> [] \<Longrightarrow> s \<noteq> ''.'' \<Longrightarrow> CHR ''/'' \<notin> set s \<Longrightarrow> pure_path_name s = s"
  by (simp add: pure_path_name_def pure_path_parts_def split_sep_notin)

lemma rfind_notin: "c \<notin> set s \<Longrightarrow> rfind s c = - 1"
  by (induction s) (auto simp: Let_def)

lemma rfind_last_occurrence: "c \<notin> set e \<Longrightarrow> rfind (a @ c # e) c = int (length a)"
  by (induction a) (auto simp: Let_def rfind_notin)

lemma name_stem_no_dot: "CHR ''.'' \<notin> set n \<Longrightarrow> name_stem n = n"
  by (simp add: name_stem_def rfind_notin)

lemma name_stem_ext:
  "a \<noteq> [] \<Longrightarrow> e \<noteq> [] \<Longrightarrow> CHR ''.'' \<notin> set e \<Longrightarrow> name_stem (a @ CHR ''.'' # e) = a"
  by (simp add: name_stem_def rfind_last_occurrence)

text \<open>What the stem leaves out is empty, or one dot followed by characters that are not dots.\<close>

lemma name_stem_stripped:
  "\<exists>suf. n = name_stem n @ suf \<and> (suf = [] \<or> (\<exists>e. suf = CHR ''.'' # e \<and> CHR ''.'' \<notin> set e))"
proof (cases "CHR ''.'' \<in> set n")
  case False
  then show ?thesis by (simp add: name_stem_no_dot)
next
  case True
  then obtain a e where n: "n = a @ CHR ''.'' # e" and e: "CHR ''.'' \<notin> set e"
    using split_list_last by fastforce
  have r: "rfind n CHR ''.'' = int (length a)"
    unfolding n using e by (rule rfind_last_occurrence)
  show ?thesis
  proof (cases "0 < length a \<and> e \<noteq> []")
    case True
    then have "name_stem n = a" using n e by (simp add: name_stem_ext)
    then show ?thesis using n e by auto
  next
    case False
    then have "name_stem n = n" using r n by (auto simp: name_stem_def)
    then show ?thesis by simp
  qed
qed

lemma build_key_filename_ext:
  assumes "a \<noteq> []" "e \<noteq> []" "CHR ''.'' \<notin> set e" "CHR ''/'' \<notin> set (a @ e)"
  shows "build_key lc (a @ CHR ''.'' # e) True c = (if c then lc a else a)"
proof -
  have "length (a @ CHR ''.'' # e) \<noteq> length ''.''"
    using assms by (cases a) auto
  then have "a @ CHR ''.'' # e \<noteq> ''.''"
    by metis
  then have "pure_path_name (a @ CHR ''.'' # e) = a @ CHR ''.'' # e"
    using assms by (intro pure_path_name_filename) auto
  then show ?thesis
    using assms by (simp add: build_key_def pure_path_stem_def name_stem_ext)
qed

lemma name_stem_edge:
  assumes "CHR ''.'' \<notin> set e" and "a = [] \<or> e = []"
  shows "name_stem (a @ CHR ''.'' # e) = a @ CHR ''.'' # e"
  using assms by (auto simp: name_stem_def rfind_last_occurrence)

text \<open>
  Claim C4, as stated, at the file names \<^verbatim>\<open>.bashrc\<close> and \<^verbatim>\<open>notes.\<close> with \<open>ignore_ext\<close>: each name
  has a dot, and so a last part delimited by a dot, but nothing is stripped and the key
  is the whole name, the dot included.
\<close>

theorem build_key_dotfile_counterexample:
  "CHR ''.'' \<in> set ''.bashrc'' \<and> build_key ascii_lower ''.bashrc'' True False = ''.bashrc''
   \<and> CHR ''.'' \<in> set ''notes.'' \<and> build_key ascii_lower ''notes.'' True False = ''notes.''"
  by (simp add: build_key_def pure_path_stem_def pure_path_name_def pure_path_parts_def
        name_stem_def)

text \<open>
  Claim C4, amended. \<open>build_key\<close> is a function with no error branch, so every name and
  every setting of the flags has exactly one key. For a file name (not empty, not \<^verbatim>\<open>.\<close>,
  no slash): without \<open>ignore_ext\<close> and \<open>ignore_case\<close> the key is the name; with \<open>ignore_ext\<close>
  the last dot and what follows it are stripped when the last dot is neither the first
  nor the last character of the name, and nothing is stripped otherwise, that is when
  the name has no dot, when its only dot is its first character, or when it ends with a
  dot. With \<open>ignore_case\<close> the key is \<^verbatim>\<open>str.lower\<close> of the key of the same call without it,
  so the case is folded after the extension is stripped; whenever \<^verbatim>\<open>str.lower\<close> maps \<^verbatim>\<open>A\<close> to
  \<^verbatim>\<open>a\<close>, the name \<^verbatim>\<open>A.PNG\<close> with both flags has the key \<^verbatim>\<open>a\<close>.
\<close>

theorem build_key_contract:
  "build_key lc name ignore_ext True = lc (build_key lc name ignore_ext False)
   \<and> (name \<noteq> [] \<and> name \<noteq> ''.'' \<and> CHR ''/'' \<notin> set name \<longrightarrow>
        build_key lc name False False = name
        \<and> (CHR ''.'' \<notin> set name \<longrightarrow> build_key lc name True False = name)
        \<and> (name = a @ CHR ''.'' # e \<and> CHR ''.'' \<notin> set e \<and> a \<noteq> [] \<and> e \<noteq> [] \<longrightarrow>
             build_key lc name True False = a)
        \<and> (name = a @ CHR ''.'' # e \<and> CHR ''.'' \<notin> set e \<and> (a = [] \<or> e = []) \<longrightarrow>
             build_key lc name True False = name))
   \<and> (lc ''A'' = ''a'' \<longrightarrow> build_key lc ''A.PNG'' True True = ''a'')"
proof -
  have 1: "build_key lc name ignore_ext True = lc (build_key lc name ignore_ext False)"
    by (simp add: build_key_def)
  have 2: "build_key lc name False False = name
        \<and> (CHR ''.'' \<notin> set name \<longrightarrow> build_key lc name True False = name)
        \<and> (name = a @ CHR ''.'' # e \<and> CHR ''.'' \<notin> set e \<and> a \<noteq> [] \<and> e \<noteq> [] \<longrightarrow>
             build_key lc name True False = a)
        \<and> (name = a @ CHR ''.'' # e \<and> CHR ''.'' \<notin> set e \<and> (a = [] \<or> e = []) \<longrightarrow>
             build_key lc name True False = name)"
    if f: "name \<noteq> [] \<and> name \<noteq> ''.'' \<and> CHR ''/'' \<notin> set name"
  proof -
    have pn: "pure_path_name name = name"
      using f by (simp add: pure_path_name_filename)
    have k: "build_key lc name True False = name_stem name"
        "build_key lc name False False = name"
      by (simp_all add: build_key_def pure_path_stem_def pn)
    show ?thesis
      unfolding k
      using name_stem_no_dot[of name] name_stem_ext[of a e] name_stem_edge[of e a]
      by auto
  qed
  have 3: "build_key lc ''A.PNG'' True True = ''a''" if "lc ''A'' = ''a''"
    using that
    by (simp add: build_key_def pure_path_stem_def pure_path_name_def pure_path_parts_def
        name_stem_def)
  from 1 2 3 show ?thesis by blast
qed

theorem build_key_contract_witness:
  "ascii_lower ''A'' = ''a''
   \<and> build_key ascii_lower ''A.PNG'' True True = ''a''
   \<and> build_key ascii_lower ''photo'' True False = ''photo''
   \<and> build_key ascii_lower ''x.tar.gz'' True False = ''x.tar''
   \<and> build_key ascii_lower ''.bashrc'' True False = ''.bashrc''
   \<and> build_key ascii_lower ''notes.'' True False = ''notes.''"
  using build_key_contract[where lc = ascii_lower and name = "''photo''"]
    build_key_contract[where lc = ascii_lower and name = "''x.tar.gz''" and a = "''x.tar''"
      and e = "''gz''"]
    build_key_contract[where lc = ascii_lower and name = "''.bashrc''" and a = "[]"
      and e = "''bashrc''"]
    build_key_contract[where lc = ascii_lower and name = "''notes.''" and a = "''notes''"
      and e = "[]"]
  by (simp add: ascii_lower_def ascii_lower_char_def)

text \<open>
  Claim C9, as stated, at the file names \<^verbatim>\<open>.jpg\<close> and \<^verbatim>\<open>.png\<close> (the base name is empty):
  pathlib gives a name that starts with its only dot no suffix, so the two keys are the
  two names and differ.
\<close>

theorem build_key_ext_counterexample:
  "build_key ascii_lower ''.jpg'' True False \<noteq> build_key ascii_lower ''.png'' True False"
  by (simp add: build_key_def pure_path_stem_def pure_path_name_def pure_path_parts_def
        name_stem_def)

text \<open>
  Claim C9, amended. For file names \<open>a.e1\<close> and \<open>a.e2\<close> whose base name \<open>a\<close> is not empty
  and whose extensions \<open>e1\<close> and \<open>e2\<close> are not empty and hold no dot, \<open>build_key\<close> with
  \<open>ignore_ext\<close> and the same \<open>ignore_case\<close> gives the same key.
\<close>

theorem build_key_ext_insensitive:
  assumes "a \<noteq> []" and "e1 \<noteq> []" and "e2 \<noteq> []"
    and "CHR ''.'' \<notin> set e1" and "CHR ''.'' \<notin> set e2"
    and "CHR ''/'' \<notin> set (a @ e1 @ e2)"
  shows "build_key lc (a @ CHR ''.'' # e1) True ignore_case
       = build_key lc (a @ CHR ''.'' # e2) True ignore_case"
  using assms by (simp add: build_key_filename_ext)

theorem build_key_ext_insensitive_witness:
  "build_key ascii_lower ''img_001.jpg'' True False
     = build_key ascii_lower ''img_001.png'' True False"
  using build_key_ext_insensitive[of "''img_001''" "''jpg''" "''png''" ascii_lower False]
  by simp

section \<open>Deletion: facts\<close>

lemma delete_loop_accounting:
  "fst (delete_loop fs files deleted errors)
     + length (fst (snd (delete_loop fs files deleted errors)))
   = deleted + length errors + length files"
  by (induction files arbitrary: fs deleted errors) (auto split: sum.splits)

text \<open>
  Claim C10. For every file system and every list of files, the count returned by
  \<open>delete_files\<close> plus the number of error entries is the length of the list.
\<close>

theorem delete_files_accounting:
  "(case delete_files fs files of
      (deleted, errors, fs') \<Rightarrow> deleted + length errors = length files)"
  using delete_loop_accounting[of fs files 0 "[]"]
  by (auto simp: delete_files_def split: prod.splits)

section \<open>Orphan computation: facts\<close>

lemma set_dict_keys: "set (dict_keys m) = dom (map_of m)"
  by (simp add: dict_keys_def dom_map_of_conv_image_fst)

lemma distinct_dict_keys: "distinct (dict_keys m)"
  by (simp add: dict_keys_def)

lemma mset_set_iter: "distinct ks \<Longrightarrow> mset (set_iter h ks) = mset ks"
  by (simp add: set_iter_def distinct_remdups_id)

lemma set_set_iter: "set (set_iter h ks) = set ks"
  by (simp add: set_iter_def)

lemma mset_concat_map_cong:
  "mset xs = mset ys \<Longrightarrow> mset (concat (map g xs)) = mset (concat (map g ys))"
proof -
  assume eq: "mset xs = mset ys"
  have "mset (concat (map g zs)) = sum_mset (image_mset (\<lambda>z. mset (g z)) (mset zs))" for zs
    by (induction zs) auto
  then show ?thesis using eq by simp
qed

lemma map_of_setdefault_append:
  "map_of (setdefault_append m k f) k' =
     (if k' = k then Some (dict_get m k [] @ [f]) else map_of m k')"
  by (auto simp: setdefault_append_def dict_get_def update_conv' map_add_def
      split: option.splits)

lemma map_of_collect_loop:
  "map_of (foldl (\<lambda>m f. setdefault_append m (key f) f) m files) k =
     (if filter (\<lambda>f. key f = k) files = [] then map_of m k
      else Some (dict_get m k [] @ filter (\<lambda>f. key f = k) files))"
proof (induction files arbitrary: m)
  case Nil
  then show ?case by simp
next
  case (Cons f files)
  show ?case
    by (simp add: Cons.IH map_of_setdefault_append dict_get_def)
qed

lemma dict_get_collect_keys_map:
  "dict_get (collect_keys_map lc files ie ic) k [] =
     filter (\<lambda>f. build_key lc (path_name f) ie ic = k) files"
  by (simp add: collect_keys_map_def dict_get_def map_of_collect_loop)

lemma dom_collect_keys_map:
  "dom (map_of (collect_keys_map lc files ie ic)) = (\<lambda>f. build_key lc (path_name f) ie ic) ` set files"
  by (auto simp: collect_keys_map_def map_of_collect_loop dom_def filter_empty_conv
      split: if_splits)

lemma mset_filter_insert_key:
  "k \<notin> S \<Longrightarrow>
   mset (filter (\<lambda>f. key f = k \<or> key f \<in> S) files) =
   mset (filter (\<lambda>f. key f = k) files) + mset (filter (\<lambda>f. key f \<in> S) files)"
  by (induction files) auto

lemma mset_concat_groups:
  "distinct ks \<Longrightarrow>
   mset (concat (map (\<lambda>k. filter (\<lambda>f. key f = k) files) ks)) =
   mset (filter (\<lambda>f. key f \<in> set ks) files)"
proof (induction ks)
  case Nil
  then show ?case by simp
next
  case (Cons k ks)
  then have "k \<notin> set ks" and "distinct ks" by simp_all
  then show ?case
    using Cons.IH mset_filter_insert_key[of k "set ks" key files]
    by (simp del: mset_filter)
qed

lemma fst_compute_orphans:
  "fst (compute_orphans h im xm) =
     concat (map (\<lambda>k. dict_get im k [])
       (set_iter h (filter (\<lambda>k. k \<notin> set (dict_keys xm)) (dict_keys im))))"
  by (simp add: compute_orphans_def Let_def)

lemma snd_compute_orphans:
  "snd (compute_orphans h im xm) =
     concat (map (\<lambda>k. dict_get xm k [])
       (set_iter h (filter (\<lambda>k. k \<notin> set (dict_keys im)) (dict_keys xm))))"
  by (simp add: compute_orphans_def Let_def)

lemma mset_orphan_side_hash:
  "mset (concat (map g (set_iter h (filter P (dict_keys m))))) =
   mset (concat (map g (filter P (dict_keys m))))"
  by (rule mset_concat_map_cong) (simp add: mset_set_iter distinct_dict_keys del: mset_filter)

lemma set_orphan_side:
  "set (concat (map (\<lambda>k. dict_get m k []) (set_iter h (filter (\<lambda>k. k \<notin> set (dict_keys other)) (dict_keys m)))))
   = {f. \<exists>k v. map_of m k = Some v \<and> map_of other k = None \<and> f \<in> set v}"
  by (fastforce simp: set_set_iter set_dict_keys dict_get_def domIff split: option.splits)

lemma mset_orphan_side_collect:
  "mset (concat (map (\<lambda>k. dict_get (collect_keys_map lc files ie ic) k [])
      (set_iter h (filter (\<lambda>k. k \<notin> set (dict_keys (collect_keys_map lc others ie ic)))
         (dict_keys (collect_keys_map lc files ie ic))))))
   = mset (filter (\<lambda>f. build_key lc (path_name f) ie ic
        \<notin> (\<lambda>g. build_key lc (path_name g) ie ic) ` set others) files)"
proof -
  let ?key = "\<lambda>f. build_key lc (path_name f) ie ic"
  let ?ks = "filter (\<lambda>k. k \<notin> set (dict_keys (collect_keys_map lc others ie ic)))
         (dict_keys (collect_keys_map lc files ie ic))"
  have d: "distinct ?ks" by (simp add: distinct_dict_keys)
  have s: "set ?ks = ?key ` set files - ?key ` set others"
    by (auto simp: set_dict_keys dom_collect_keys_map)
  have "mset (concat (map (\<lambda>k. dict_get (collect_keys_map lc files ie ic) k []) (set_iter h ?ks)))
      = mset (concat (map (\<lambda>k. filter (\<lambda>f. ?key f = k) files) ?ks))"
    unfolding dict_get_collect_keys_map
    by (rule mset_concat_map_cong) (simp add: mset_set_iter d del: mset_filter)
  also have "\<dots> = mset (filter (\<lambda>f. ?key f \<in> set ?ks) files)"
    using d by (rule mset_concat_groups)
  also have "filter (\<lambda>f. ?key f \<in> set ?ks) files = filter (\<lambda>f. ?key f \<notin> ?key ` set others) files"
    unfolding s by (rule filter_cong) auto
  finally show ?thesis .
qed

text \<open>
  Claim C1. For all key maps, whatever the iteration order of the key sets, the image
  orphans are exactly the files listed under a key that the image map has and the index
  map has not, and likewise for the index orphans. For the maps that \<open>collect_keys_map\<close>
  builds from two lists of files, the orphans of a side are, as a multiset, the files of
  that side whose key is the key of no file of the other side: every file under such a
  key, each once. With \<open>ignore_ext\<close>, the images \<^verbatim>\<open>a.jpg\<close>, \<^verbatim>\<open>b.jpg\<close>, \<^verbatim>\<open>c.jpg\<close> against the index
  files \<^verbatim>\<open>a.idx\<close>, \<^verbatim>\<open>b.idx\<close>, \<^verbatim>\<open>d.idx\<close> give the image orphan \<^verbatim>\<open>c.jpg\<close> and the index orphan
  \<^verbatim>\<open>d.idx\<close>, with or without \<open>ignore_case\<close>; with it the scenario uses of \<^verbatim>\<open>str.lower\<close> that it
  keeps the four small letters.
\<close>

theorem compute_orphans_exact:
  "set (fst (compute_orphans h image_map index_map)) =
     {f. \<exists>k v. map_of image_map k = Some v \<and> map_of index_map k = None \<and> f \<in> set v}
   \<and> set (snd (compute_orphans h image_map index_map)) =
     {f. \<exists>k v. map_of index_map k = Some v \<and> map_of image_map k = None \<and> f \<in> set v}
   \<and> mset (fst (compute_orphans h (collect_keys_map lc image_files ie ic)
                                  (collect_keys_map lc index_files ie ic))) =
     mset (filter (\<lambda>f. build_key lc (path_name f) ie ic
             \<notin> (\<lambda>g. build_key lc (path_name g) ie ic) ` set index_files) image_files)
   \<and> mset (snd (compute_orphans h (collect_keys_map lc image_files ie ic)
                                  (collect_keys_map lc index_files ie ic))) =
     mset (filter (\<lambda>f. build_key lc (path_name f) ie ic
             \<notin> (\<lambda>g. build_key lc (path_name g) ie ic) ` set image_files) index_files)
   \<and> ((ic \<longrightarrow> lc ''a'' = ''a'' \<and> lc ''b'' = ''b'' \<and> lc ''c'' = ''c'' \<and> lc ''d'' = ''d'') \<longrightarrow>
      compute_orphans h
       (collect_keys_map lc [[''image'', ''a.jpg''], [''image'', ''b.jpg''], [''image'', ''c.jpg'']]
          True ic)
       (collect_keys_map lc [[''index'', ''a.idx''], [''index'', ''b.idx''], [''index'', ''d.idx'']]
          True ic)
     = ([[''image'', ''c.jpg'']], [[''index'', ''d.idx'']]))"
proof -
  have 5: "compute_orphans h
       (collect_keys_map lc [[''image'', ''a.jpg''], [''image'', ''b.jpg''], [''image'', ''c.jpg'']]
          True ic)
       (collect_keys_map lc [[''index'', ''a.idx''], [''index'', ''b.idx''], [''index'', ''d.idx'']]
          True ic)
     = ([[''image'', ''c.jpg'']], [[''index'', ''d.idx'']])"
    if "ic \<longrightarrow> lc ''a'' = ''a'' \<and> lc ''b'' = ''b'' \<and> lc ''c'' = ''c'' \<and> lc ''d'' = ''d''"
    using that
    by (cases ic)
      (simp_all add: compute_orphans_def collect_keys_map_def setdefault_append_def
        dict_keys_def dict_get_def set_iter_def path_name_def build_key_def
        pure_path_stem_def pure_path_name_def pure_path_parts_def name_stem_def)
  have g: "set (fst (compute_orphans h image_map index_map)) =
     {f. \<exists>k v. map_of image_map k = Some v \<and> map_of index_map k = None \<and> f \<in> set v}
   \<and> set (snd (compute_orphans h image_map index_map)) =
     {f. \<exists>k v. map_of index_map k = Some v \<and> map_of image_map k = None \<and> f \<in> set v}
   \<and> mset (fst (compute_orphans h (collect_keys_map lc image_files ie ic)
                                  (collect_keys_map lc index_files ie ic))) =
     mset (filter (\<lambda>f. build_key lc (path_name f) ie ic
             \<notin> (\<lambda>g. build_key lc (path_name g) ie ic) ` set index_files) image_files)
   \<and> mset (snd (compute_orphans h (collect_keys_map lc image_files ie ic)
                                  (collect_keys_map lc index_files ie ic))) =
     mset (filter (\<lambda>f. build_key lc (path_name f) ie ic
             \<notin> (\<lambda>g. build_key lc (path_name g) ie ic) ` set image_files) index_files)"
    unfolding fst_compute_orphans snd_compute_orphans
    by (simp only: set_orphan_side mset_orphan_side_collect simp_thms)
  from g 5 show ?thesis by blast
qed

theorem compute_orphans_exact_witness:
  "ascii_lower ''a'' = ''a'' \<and> ascii_lower ''b'' = ''b'' \<and> ascii_lower ''c'' = ''c''
   \<and> ascii_lower ''d'' = ''d''
   \<and> compute_orphans (\<lambda>k. 0)
       (collect_keys_map ascii_lower
          [[''image'', ''a.jpg''], [''image'', ''b.jpg''], [''image'', ''c.jpg'']] True True)
       (collect_keys_map ascii_lower
          [[''index'', ''a.idx''], [''index'', ''b.idx''], [''index'', ''d.idx'']] True True)
     = ([[''image'', ''c.jpg'']], [[''index'', ''d.idx'']])"
  using compute_orphans_exact[where lc = ascii_lower and ic = True and h = "\<lambda>k. 0"]
  by (simp add: ascii_lower_def ascii_lower_char_def)

text \<open>
  Claim C8. Swapping the two maps swaps the two lists of orphans: the image orphans of
  \<open>(m1, m2)\<close> and the index orphans of \<open>(m2, m1)\<close> hold the same files, as sets and as
  multisets, and so do the other two lists, even when the two calls iterate their key
  sets in different orders (\<open>h\<close> and \<open>h'\<close>).
\<close>

theorem compute_orphans_symmetric:
  "mset (fst (compute_orphans h m1 m2)) = mset (snd (compute_orphans h' m2 m1))
   \<and> mset (snd (compute_orphans h m1 m2)) = mset (fst (compute_orphans h' m2 m1))
   \<and> set (fst (compute_orphans h m1 m2)) = set (snd (compute_orphans h' m2 m1))
   \<and> set (snd (compute_orphans h m1 m2)) = set (fst (compute_orphans h' m2 m1))"
proof -
  have a: "mset (fst (compute_orphans h m1 m2)) = mset (snd (compute_orphans h' m2 m1))"
    unfolding fst_compute_orphans snd_compute_orphans
    by (simp only: mset_orphan_side_hash)
  have b: "mset (snd (compute_orphans h m1 m2)) = mset (fst (compute_orphans h' m2 m1))"
    unfolding fst_compute_orphans snd_compute_orphans
    by (simp only: mset_orphan_side_hash)
  from a b show ?thesis
    by (metis set_mset_mset)
qed

section \<open>Listing: facts\<close>











lemmas fs_eval = path_exists_def is_dir_def is_file_def iterdir_def list_files_def
  demo_fs_def plain_file_def protected_file_def directory_def no_faults_def

lemma long_name_fault:
  "long_name_faults call (p @ [replicate 300 CHR ''a'']) = Some NameTooLong"
  by (simp add: long_name_faults_def)




section \<open>Deletion and split processing: facts\<close>

lemma map_of_filter_keys:
  "map_of (filter (\<lambda>pe. Q (fst pe)) al) k = (if Q k then map_of al k else None)"
  by (induction al) auto

lemma unlink_failure_map_of:
  "unlink_failure fs p =
     (case map_of fs p of
        None \<Rightarrow> None
      | Some e \<Rightarrow> if kind e = Directory then Some IsADirectory else unlink_error e)"
  by (simp add: unlink_failure_def unlink_def split: option.splits)

lemma unlink_Inl: "unlink fs f = Inl e \<Longrightarrow> unlink_failure fs f = Some e"
  by (simp add: unlink_failure_def)

lemma unlink_Inr:
  assumes "unlink fs f = Inr fs1"
  shows "unlink_failure fs f = None" and "fs1 = filter (\<lambda>pe. fst pe \<noteq> f) fs"
proof -
  show "unlink_failure fs f = None"
    using assms by (simp add: unlink_failure_def)
  show "fs1 = filter (\<lambda>pe. fst pe \<noteq> f) fs"
  proof (cases "map_of fs f")
    case None
    then have "f \<notin> fst ` set fs" by (simp add: map_of_eq_None_iff)
    then have "filter (\<lambda>pe. fst pe \<noteq> f) fs = fs"
      by (intro filter_True) auto
    moreover have "fs1 = fs" using assms None by (simp add: unlink_def)
    ultimately show ?thesis by simp
  next
    case (Some e)
    then have "fs1 = AList.delete f fs"
      using assms by (auto simp: unlink_def split: if_splits option.splits)
    also have "\<dots> = filter (\<lambda>pe. fst pe \<noteq> f) fs"
      by (induction fs) auto
    finally show ?thesis .
  qed
qed

lemma unlink_failure_after_removals:
  assumes "\<And>p. p \<in> S \<Longrightarrow> unlink_failure fs p = None"
  shows "unlink_failure (filter (\<lambda>pe. fst pe \<notin> S) fs) g = unlink_failure fs g"
proof -
  have m: "map_of (filter (\<lambda>pe. fst pe \<notin> S) fs) g = (if g \<notin> S then map_of fs g else None)"
    using map_of_filter_keys[of "\<lambda>k. k \<notin> S" fs g] by simp
  show ?thesis
  proof (cases "g \<in> S")
    case True
    then show ?thesis
      using assms[of g] m by (simp add: unlink_failure_map_of[of "filter (\<lambda>pe. fst pe \<notin> S) fs"])
  next
    case False
    then show ?thesis
      using m by (simp add: unlink_failure_map_of)
  qed
qed

lemma delete_loop_outcome:
  "delete_loop fs files deleted errors =
     (deleted + length (filter (\<lambda>f. unlink_failure fs f = None) files),
      errors @ failure_entries fs files,
      filter (\<lambda>pe. \<not> (fst pe \<in> set files \<and> unlink_failure fs (fst pe) = None)) fs)"
proof (induction files arbitrary: fs deleted errors)
  case Nil
  then show ?case by (simp add: failure_entries_def)
next
  case (Cons f files)
  show ?case
  proof (cases "unlink fs f")
    case (Inl e)
    then have fail: "unlink_failure fs f = Some e" by (rule unlink_Inl)
    have "filter (\<lambda>pe. \<not> (fst pe \<in> set (f # files) \<and> unlink_failure fs (fst pe) = None)) fs
        = filter (\<lambda>pe. \<not> (fst pe \<in> set files \<and> unlink_failure fs (fst pe) = None)) fs"
      by (rule filter_cong) (auto simp: fail)
    then show ?thesis
      using Inl fail by (simp add: Cons.IH failure_entries_def)
  next
    case (Inr fs1)
    then have ok: "unlink_failure fs f = None"
      and fs1: "fs1 = filter (\<lambda>pe. fst pe \<notin> {f}) fs"
      using unlink_Inr[of fs f fs1] by simp_all
    have same: "unlink_failure fs1 g = unlink_failure fs g" for g
      unfolding fs1 by (rule unlink_failure_after_removals) (simp add: ok)
    have "filter (\<lambda>pe. \<not> (fst pe \<in> set files \<and> unlink_failure fs (fst pe) = None)) fs1
        = filter (\<lambda>pe. \<not> (fst pe \<in> set (f # files) \<and> unlink_failure fs (fst pe) = None)) fs"
      unfolding fs1 filter_filter by (rule filter_cong) (auto simp: ok)
    then show ?thesis
      using Inr ok by (simp add: Cons.IH failure_entries_def same)
  qed
qed

lemma delete_files_outcome:
  "delete_files fs files =
     (length (filter (\<lambda>f. unlink_failure fs f = None) files),
      failure_entries fs files,
      filter (\<lambda>pe. \<not> (fst pe \<in> set files \<and> unlink_failure fs (fst pe) = None)) fs)"
  by (simp add: delete_files_def delete_loop_outcome)

lemma unlink_failure_after_delete_files:
  "unlink_failure (snd (snd (delete_files fs files))) g = unlink_failure fs g"
proof -
  have "unlink_failure (filter (\<lambda>pe. fst pe \<notin> {p \<in> set files. unlink_failure fs p = None}) fs) g
      = unlink_failure fs g"
    by (rule unlink_failure_after_removals) simp
  then show ?thesis by (simp add: delete_files_outcome)
qed

lemma delete_files_twice:
  "delete_files (snd (snd (delete_files fs xs))) ys =
     (length (filter (\<lambda>f. unlink_failure fs f = None) ys),
      failure_entries fs ys,
      filter (\<lambda>pe. \<not> (fst pe \<in> set xs \<union> set ys \<and> unlink_failure fs (fst pe) = None)) fs)"
proof -
  define fs1 where "fs1 = snd (snd (delete_files fs xs))"
  have same: "unlink_failure fs1 g = unlink_failure fs g" for g
    unfolding fs1_def by (rule unlink_failure_after_delete_files)
  have fs1: "fs1 = filter (\<lambda>pe. \<not> (fst pe \<in> set xs \<and> unlink_failure fs (fst pe) = None)) fs"
    unfolding fs1_def by (simp add: delete_files_outcome)
  have "delete_files fs1 ys =
     (length (filter (\<lambda>f. unlink_failure fs1 f = None) ys),
      failure_entries fs1 ys,
      filter (\<lambda>pe. \<not> (fst pe \<in> set ys \<and> unlink_failure fs1 (fst pe) = None)) fs1)"
    by (rule delete_files_outcome)
  then have "delete_files fs1 ys =
     (length (filter (\<lambda>f. unlink_failure fs f = None) ys),
      failure_entries fs ys,
      filter (\<lambda>pe. \<not> (fst pe \<in> set ys \<and> unlink_failure fs (fst pe) = None)) fs1)"
    by (simp only: failure_entries_def same)
  moreover have
    "filter (\<lambda>pe. \<not> (fst pe \<in> set ys \<and> unlink_failure fs (fst pe) = None)) fs1
     = filter (\<lambda>pe. \<not> (fst pe \<in> set xs \<union> set ys \<and> unlink_failure fs (fst pe) = None)) fs"
    unfolding fs1 filter_filter by (rule filter_cong) auto
  ultimately show ?thesis
    unfolding fs1_def by simp
qed

lemma process_split_frame:
  "snd (process_split h lc flt fs root split image_dirname index_dirname ie ic False) = fs"
  by (simp add: process_split_def Let_def split_beta split: sum.splits)

lemma process_split_dry_errors:
  "fst (process_split h lc flt fs root split image_dirname index_dirname ie ic False)
     = Inr (rep, errs) \<Longrightarrow> errs = []"
  by (auto simp: process_split_def Let_def split_beta split: sum.splits if_splits)

lemma process_split_root_error:
  "path_exists flt fs (joinpath root split) = Inl err \<Longrightarrow>
   process_split h lc flt fs root split image_dirname index_dirname ie ic dd = (Inl err, fs)"
  by (simp add: process_split_def Let_def)

lemma process_split_image_error:
  "path_exists flt fs (joinpath root split) = Inr True \<Longrightarrow>
   path_exists flt fs (joinpath (joinpath root split) image_dirname) = Inl err \<Longrightarrow>
   process_split h lc flt fs root split image_dirname index_dirname ie ic dd = (Inl err, fs)"
  by (simp add: process_split_def Let_def)

lemma process_split_index_error:
  "path_exists flt fs (joinpath root split) = Inr True \<Longrightarrow>
   path_exists flt fs (joinpath (joinpath root split) image_dirname) = Inr a \<Longrightarrow>
   path_exists flt fs (joinpath (joinpath root split) index_dirname) = Inl err \<Longrightarrow>
   process_split h lc flt fs root split image_dirname index_dirname ie ic dd = (Inl err, fs)"
  by (simp add: process_split_def Let_def)

lemma process_split_no_split:
  "path_exists flt fs (joinpath root split) = Inr False \<Longrightarrow>
   process_split h lc flt fs root split image_dirname index_dirname ie ic dd =
     (Inr ([SplitMissing split (human_relpath (joinpath root split) root)], []), fs)"
  by (simp add: process_split_def Let_def)

lemma process_split_no_subdir:
  "path_exists flt fs (joinpath root split) = Inr True \<Longrightarrow>
   path_exists flt fs (joinpath (joinpath root split) image_dirname) = Inr a \<Longrightarrow>
   path_exists flt fs (joinpath (joinpath root split) index_dirname) = Inr b \<Longrightarrow>
   \<not> a \<or> \<not> b \<Longrightarrow>
   process_split h lc flt fs root split image_dirname index_dirname ie ic dd =
     (Inr (SubdirMissing split image_dirname index_dirname
           # map (\<lambda>d. MissingPath (human_relpath d root))
               (filter (\<lambda>d. path_exists flt fs d = Inr False)
                  [joinpath (joinpath root split) image_dirname,
                   joinpath (joinpath root split) index_dirname]),
           []),
      fs)"
  by (auto simp: process_split_def Let_def)

lemma process_split_dry_run:
  assumes "path_exists flt fs (joinpath root split) = Inr True"
    and "path_exists flt fs (joinpath (joinpath root split) image_dirname) = Inr True"
    and "path_exists flt fs (joinpath (joinpath root split) index_dirname) = Inr True"
    and "list_files flt fs (joinpath (joinpath root split) image_dirname) = Inr image_files"
    and "list_files flt fs (joinpath (joinpath root split) index_dirname) = Inr index_files"
  shows "process_split h lc flt fs root split image_dirname index_dirname ie ic False =
     (Inr (scan_report h lc root split image_files index_files ie ic @ [DryRun], []), fs)"
  using assms by (simp add: process_split_def scan_report_def Let_def split_beta)

lemma process_split_delete:
  assumes "path_exists flt fs (joinpath root split) = Inr True"
    and "path_exists flt fs (joinpath (joinpath root split) image_dirname) = Inr True"
    and "path_exists flt fs (joinpath (joinpath root split) index_dirname) = Inr True"
    and "list_files flt fs (joinpath (joinpath root split) image_dirname) = Inr image_files"
    and "list_files flt fs (joinpath (joinpath root split) index_dirname) = Inr index_files"
  shows "process_split h lc flt fs root split image_dirname index_dirname ie ic True =
     (let orphans = compute_orphans h (collect_keys_map lc image_files ie ic)
                      (collect_keys_map lc index_files ie ic)
      in (Inr (scan_report h lc root split image_files index_files ie ic
               @ [DeletedImage (length (filter (\<lambda>f. unlink_failure fs f = None) (fst orphans)))
                    (length (fst orphans)),
                  DeletedIndex (length (filter (\<lambda>f. unlink_failure fs f = None) (snd orphans)))
                    (length (snd orphans))],
               map (DeleteFailedImage split) (failure_entries fs (fst orphans))
               @ map (DeleteFailedIndex split) (failure_entries fs (snd orphans))),
          filter (\<lambda>pe. \<not> (fst pe \<in> set (fst orphans) \<union> set (snd orphans)
                          \<and> unlink_failure fs (fst pe) = None)) fs))"
proof -
  let ?o = "compute_orphans h (collect_keys_map lc image_files ie ic)
              (collect_keys_map lc index_files ie ic)"
  obtain n1 e1 fs1 where d1: "delete_files fs (fst ?o) = (n1, e1, fs1)"
    by (metis prod_cases3)
  obtain n2 e2 fs2 where d2: "delete_files fs1 (snd ?o) = (n2, e2, fs2)"
    by (metis prod_cases3)
  have r1: "n1 = length (filter (\<lambda>f. unlink_failure fs f = None) (fst ?o))"
      "e1 = failure_entries fs (fst ?o)"
    using d1 by (simp_all add: delete_files_outcome)
  have r2: "n2 = length (filter (\<lambda>f. unlink_failure fs f = None) (snd ?o))"
      "e2 = failure_entries fs (snd ?o)"
      "fs2 = filter (\<lambda>pe. \<not> (fst pe \<in> set (fst ?o) \<union> set (snd ?o)
                          \<and> unlink_failure fs (fst pe) = None)) fs"
    using delete_files_twice[of fs "fst ?o" "snd ?o"] d1 d2 by simp_all
  have "process_split h lc flt fs root split image_dirname index_dirname ie ic True =
     (Inr (scan_report h lc root split image_files index_files ie ic
           @ [DeletedImage n1 (length (fst ?o)), DeletedIndex n2 (length (snd ?o))],
           map (DeleteFailedImage split) e1 @ map (DeleteFailedIndex split) e2), fs2)"
    using assms
    by (simp add: process_split_def scan_report_def Let_def split_beta d1 d2)
  then show ?thesis
    unfolding r1 r2 by (simp add: Let_def)
qed

section \<open>The example trees: evaluation\<close>

lemmas path_eval = joinpath_def two_slashes_def double_root_def pure_path_parts_def
  human_relpath_def str_relative_def str_path_def

lemmas key_eval = build_key_def pure_path_stem_def pure_path_name_def name_stem_def
  ascii_lower_def ascii_lower_char_def path_name_def

lemmas orphan_eval = collect_keys_map_def setdefault_append_def dict_keys_def dict_get_def
  set_iter_def compute_orphans_def

lemmas demo_eval = demo_fs_def directory_def plain_file_def protected_file_def

lemma demo_train_checks:
  "path_exists no_faults demo_fs (joinpath [''d''] ''train'') = Inr True"
  "path_exists no_faults demo_fs (joinpath (joinpath [''d''] ''train'') ''image'') = Inr True"
  "path_exists no_faults demo_fs (joinpath (joinpath [''d''] ''train'') ''index'') = Inr True"
  by (simp_all add: path_eval path_exists_def no_faults_def demo_eval)

lemma demo_train_lists:
  "list_files no_faults demo_fs (joinpath (joinpath [''d''] ''train'') ''image'') =
     Inr [[''d'', ''train'', ''image'', ''b.jpg''], [''d'', ''train'', ''image'', ''a.jpg''],
          [''d'', ''train'', ''image'', ''c.jpg'']]"
  "list_files no_faults demo_fs (joinpath (joinpath [''d''] ''train'') ''index'') =
     Inr [[''d'', ''train'', ''index'', ''a.idx''], [''d'', ''train'', ''index'', ''d.idx''],
          [''d'', ''train'', ''index'', ''b.idx'']]"
  by (simp_all add: path_eval fs_eval)

lemma demo_train_orphans:
  "compute_orphans (\<lambda>k. 0)
     (collect_keys_map ascii_lower
        [[''d'', ''train'', ''image'', ''b.jpg''], [''d'', ''train'', ''image'', ''a.jpg''],
         [''d'', ''train'', ''image'', ''c.jpg'']] True False)
     (collect_keys_map ascii_lower
        [[''d'', ''train'', ''index'', ''a.idx''], [''d'', ''train'', ''index'', ''d.idx''],
         [''d'', ''train'', ''index'', ''b.idx'']] True False)
   = ([[''d'', ''train'', ''image'', ''c.jpg'']], [[''d'', ''train'', ''index'', ''d.idx'']])"
  by (simp add: orphan_eval key_eval pure_path_parts_def)

lemma demo_train_failures:
  "unlink_failure demo_fs [''d'', ''train'', ''image'', ''c.jpg''] = None"
  "unlink_failure demo_fs [''d'', ''train'', ''index'', ''d.idx''] = Some PermissionDenied"
  by (simp_all add: unlink_failure_map_of demo_eval)

lemma demo_valid_checks:
  "path_exists no_faults demo_fs (joinpath [''d''] ''valid'') = Inr True"
  "path_exists no_faults demo_fs (joinpath (joinpath [''d''] ''valid'') ''image'') = Inr True"
  "path_exists no_faults demo_fs (joinpath (joinpath [''d''] ''valid'') ''index'') = Inr False"
  by (simp_all add: path_eval path_exists_def no_faults_def demo_eval)

lemma demo_test_check:
  "path_exists no_faults demo_fs (joinpath [''d''] ''test'') = Inr False"
  by (simp add: path_eval path_exists_def no_faults_def demo_eval)

lemma preview_checks:
  "path_exists no_faults preview_fs (joinpath [''p''] ''test'') = Inr True"
  "path_exists no_faults preview_fs (joinpath (joinpath [''p''] ''test'') ''image'') = Inr True"
  "path_exists no_faults preview_fs (joinpath (joinpath [''p''] ''test'') ''index'') = Inr True"
  by (simp_all add: path_eval path_exists_def no_faults_def preview_fs_def directory_def
      plain_file_def)

lemma preview_lists:
  "list_files no_faults preview_fs (joinpath (joinpath [''p''] ''test'') ''image'') =
     Inr [[''p'', ''test'', ''image'', ''k.png''], [''p'', ''test'', ''image'', ''c.png''],
          [''p'', ''test'', ''image'', ''a.png''], [''p'', ''test'', ''image'', ''e.png''],
          [''p'', ''test'', ''image'', ''b.png''], [''p'', ''test'', ''image'', ''j.png''],
          [''p'', ''test'', ''image'', ''d.png''], [''p'', ''test'', ''image'', ''g.png''],
          [''p'', ''test'', ''image'', ''f.png''], [''p'', ''test'', ''image'', ''i.png''],
          [''p'', ''test'', ''image'', ''h.png'']]"
  "list_files no_faults preview_fs (joinpath (joinpath [''p''] ''test'') ''index'') = Inr []"
  by (simp_all add: path_eval path_exists_def is_dir_def is_file_def iterdir_def list_files_def
      no_faults_def preview_fs_def plain_file_def directory_def)

lemma preview_orphans:
  "compute_orphans (\<lambda>k. 0)
     (collect_keys_map ascii_lower
        [[''p'', ''test'', ''image'', ''k.png''], [''p'', ''test'', ''image'', ''c.png''],
         [''p'', ''test'', ''image'', ''a.png''], [''p'', ''test'', ''image'', ''e.png''],
         [''p'', ''test'', ''image'', ''b.png''], [''p'', ''test'', ''image'', ''j.png''],
         [''p'', ''test'', ''image'', ''d.png''], [''p'', ''test'', ''image'', ''g.png''],
         [''p'', ''test'', ''image'', ''f.png''], [''p'', ''test'', ''image'', ''i.png''],
         [''p'', ''test'', ''image'', ''h.png'']] False False)
     (collect_keys_map ascii_lower [] False False)
   = ([[''p'', ''test'', ''image'', ''k.png''], [''p'', ''test'', ''image'', ''c.png''],
       [''p'', ''test'', ''image'', ''a.png''], [''p'', ''test'', ''image'', ''e.png''],
       [''p'', ''test'', ''image'', ''b.png''], [''p'', ''test'', ''image'', ''j.png''],
       [''p'', ''test'', ''image'', ''d.png''], [''p'', ''test'', ''image'', ''g.png''],
       [''p'', ''test'', ''image'', ''f.png''], [''p'', ''test'', ''image'', ''i.png''],
       [''p'', ''test'', ''image'', ''h.png'']], [])"
  by (simp add: orphan_eval key_eval pure_path_parts_def)

lemma preview_scan_report:
  "scan_report (\<lambda>k. 0) ascii_lower [''p''] ''test''
     [[''p'', ''test'', ''image'', ''k.png''], [''p'', ''test'', ''image'', ''c.png''],
      [''p'', ''test'', ''image'', ''a.png''], [''p'', ''test'', ''image'', ''e.png''],
      [''p'', ''test'', ''image'', ''b.png''], [''p'', ''test'', ''image'', ''j.png''],
      [''p'', ''test'', ''image'', ''d.png''], [''p'', ''test'', ''image'', ''g.png''],
      [''p'', ''test'', ''image'', ''f.png''], [''p'', ''test'', ''image'', ''i.png''],
      [''p'', ''test'', ''image'', ''h.png'']] [] False False =
     [ScanDone ''test'' 11 0, OrphanImageCount 11,
      PreviewItem ''test/image/a.png'', PreviewItem ''test/image/b.png'',
      PreviewItem ''test/image/c.png'', PreviewItem ''test/image/d.png'',
      PreviewItem ''test/image/e.png'', PreviewItem ''test/image/f.png'',
      PreviewItem ''test/image/g.png'', PreviewItem ''test/image/h.png'',
      PreviewItem ''test/image/i.png'', PreviewItem ''test/image/j.png'',
      TotalLine 11, OrphanIndexCount 0]"
  unfolding scan_report_def
  by (simp add: Let_def preview_orphans preview_lines_def human_relpath_def double_root_def
      str_relative_def)

lemma slip_checks:
  "path_exists no_faults slip_fs (joinpath [''s''] ''train'') = Inr True"
  "path_exists no_faults slip_fs (joinpath (joinpath [''s''] ''train'') ''image'') = Inr True"
  "path_exists no_faults slip_fs (joinpath (joinpath [''s''] ''train'') ''index'') = Inr True"
  by (simp_all add: path_eval path_exists_def no_faults_def slip_fs_def directory_def
      plain_file_def)

lemma slip_lists:
  "is_dir no_faults slip_fs (joinpath (joinpath [''s''] ''train'') ''image'') = Inr False"
  "list_files no_faults slip_fs (joinpath (joinpath [''s''] ''train'') ''image'') = Inr []"
  "list_files no_faults slip_fs (joinpath (joinpath [''s''] ''train'') ''index'') =
     Inr [[''s'', ''train'', ''index'', ''a.idx''], [''s'', ''train'', ''index'', ''b.idx'']]"
  by (simp_all add: path_eval path_exists_def is_dir_def is_file_def iterdir_def list_files_def
      no_faults_def slip_fs_def plain_file_def directory_def)

lemma slip_orphans:
  "compute_orphans (\<lambda>k. 0)
     (collect_keys_map ascii_lower [] False False)
     (collect_keys_map ascii_lower
        [[''s'', ''train'', ''index'', ''a.idx''], [''s'', ''train'', ''index'', ''b.idx'']]
        False False)
   = ([], [[''s'', ''train'', ''index'', ''a.idx''], [''s'', ''train'', ''index'', ''b.idx'']])"
  by (simp add: orphan_eval key_eval pure_path_parts_def)

lemma slip_failures:
  "unlink_failure slip_fs [''s'', ''train'', ''index'', ''a.idx''] = None"
  "unlink_failure slip_fs [''s'', ''train'', ''index'', ''b.idx''] = None"
  by (simp_all add: unlink_failure_map_of slip_fs_def plain_file_def directory_def)

lemma long_split_path:
  "joinpath [''d''] (replicate 300 CHR ''a'') = [''d''] @ [replicate 300 CHR ''a'']"
proof -
  have n: "replicate 300 CHR ''a'' \<noteq> []" "replicate 300 CHR ''a'' \<noteq> ''.''"
      "hd (replicate 300 CHR ''a'') = CHR ''a''"
      "take 2 (replicate 300 CHR ''a'') = ''aa''"
    by (simp_all add: eval_nat_numeral)
  have "CHR ''/'' \<notin> set (replicate 300 CHR ''a'')" by simp
  then have "pure_path_parts (replicate 300 CHR ''a'') = [replicate 300 CHR ''a'']"
    using n by (simp add: pure_path_parts_def split_sep_notin)
  then show ?thesis
    using n by (simp add: joinpath_def two_slashes_def)
qed

lemma long_split_check:
  "path_exists long_name_faults demo_fs (joinpath [''d''] (replicate 300 CHR ''a''))
     = Inl NameTooLong"
  unfolding long_split_path path_exists_def
  using long_name_fault[of Stat "[''d'']"] by simp

section \<open>Split processing: the claims\<close>

text \<open>
  Claim C6, as stated, at two inputs. In \<open>demo_fs\<close>, a split whose name has 300 letters
  does not exist, but \<^verbatim>\<open>exists()\<close> raises the \<^verbatim>\<open>ENAMETOOLONG\<close> of \<^verbatim>\<open>stat\<close> and \<open>process_split\<close>,
  which has no handler, raises it instead of reporting a missing split. In \<open>slip_fs\<close> the
  image subdirectory is absent, a regular file having its name, but line 93 asks only
  \<^verbatim>\<open>exists()\<close>: \<open>process_split\<close> reports no missing subdirectory, scans, finds no image and
  two index orphans, and with the delete flag removes both index files.
\<close>

theorem structural_checks_counterexample:
  "map_of demo_fs (joinpath [''d''] (replicate 300 CHR ''a'')) = None
   \<and> process_split (\<lambda>k. 0) ascii_lower long_name_faults demo_fs [''d'']
        (replicate 300 CHR ''a'') ''image'' ''index'' False False False
      = (Inl NameTooLong, demo_fs)
   \<and> is_dir no_faults slip_fs (joinpath (joinpath [''s''] ''train'') ''image'') = Inr False
   \<and> process_split (\<lambda>k. 0) ascii_lower no_faults slip_fs [''s''] ''train'' ''image'' ''index''
        False False True
      = (Inr ([ScanDone ''train'' 0 2, OrphanImageCount 0, OrphanIndexCount 2,
               PreviewItem ''train/index/a.idx'', PreviewItem ''train/index/b.idx'',
               DeletedImage 0 0, DeletedIndex 2 2], []),
         [([''s''], directory), ([''s'', ''train''], directory),
          ([''s'', ''train'', ''image''], plain_file),
          ([''s'', ''train'', ''index''], directory)])"
proof -
  have "\<forall>q\<in>fst ` set demo_fs. \<forall>c\<in>set q. length c < 256"
    by (simp add: demo_fs_def)
  moreover have "\<not> (\<forall>c\<in>set ([''d''] @ [replicate 300 CHR ''a'']). length c < 256)"
    by simp
  ultimately have "[''d''] @ [replicate 300 CHR ''a''] \<notin> fst ` set demo_fs"
    by blast
  then have 1: "map_of demo_fs (joinpath [''d''] (replicate 300 CHR ''a'')) = None"
    by (simp add: map_of_eq_None_iff long_split_path)
  have 2: "process_split (\<lambda>k. 0) ascii_lower long_name_faults demo_fs [''d'']
        (replicate 300 CHR ''a'') ''image'' ''index'' False False False
      = (Inl NameTooLong, demo_fs)"
    using long_split_check by (rule process_split_root_error)
  have s: "scan_report (\<lambda>k. 0) ascii_lower [''s''] ''train'' []
      [[''s'', ''train'', ''index'', ''a.idx''], [''s'', ''train'', ''index'', ''b.idx'']]
      False False
      = [ScanDone ''train'' 0 2, OrphanImageCount 0, OrphanIndexCount 2,
         PreviewItem ''train/index/a.idx'', PreviewItem ''train/index/b.idx'']"
    unfolding scan_report_def
    by (simp add: Let_def slip_orphans preview_lines_def human_relpath_def double_root_def
        str_relative_def)
  have 3: "process_split (\<lambda>k. 0) ascii_lower no_faults slip_fs [''s''] ''train'' ''image''
        ''index'' False False True
      = (Inr ([ScanDone ''train'' 0 2, OrphanImageCount 0, OrphanIndexCount 2,
               PreviewItem ''train/index/a.idx'', PreviewItem ''train/index/b.idx'',
               DeletedImage 0 0, DeletedIndex 2 2], []),
         [([''s''], directory), ([''s'', ''train''], directory),
          ([''s'', ''train'', ''image''], plain_file),
          ([''s'', ''train'', ''index''], directory)])"
  proof -
    have f: "filter (\<lambda>pe. \<not> (fst pe \<in> set [] \<union> set [[''s'', ''train'', ''index'', ''a.idx''],
                  [''s'', ''train'', ''index'', ''b.idx'']]
                \<and> unlink_failure slip_fs (fst pe) = None)) slip_fs
        = filter (\<lambda>pe. fst pe \<noteq> [''s'', ''train'', ''index'', ''a.idx'']
                \<and> fst pe \<noteq> [''s'', ''train'', ''index'', ''b.idx'']) slip_fs"
      by (rule filter_cong) (auto simp: slip_failures)
    have g: "filter (\<lambda>pe. fst pe \<noteq> [''s'', ''train'', ''index'', ''a.idx'']
                \<and> fst pe \<noteq> [''s'', ''train'', ''index'', ''b.idx'']) slip_fs
        = [([''s''], directory), ([''s'', ''train''], directory),
           ([''s'', ''train'', ''image''], plain_file),
           ([''s'', ''train'', ''index''], directory)]"
      by (simp add: slip_fs_def)
    show ?thesis
      unfolding process_split_delete[OF slip_checks slip_lists(2) slip_lists(3)] s Let_def
        slip_orphans fst_conv snd_conv f g
      by (simp add: slip_failures failure_entries_def)
  qed
  from 1 2 3 slip_lists(1) show ?thesis by simp
qed

text \<open>
  Claim C6, amended. When \<^verbatim>\<open>stat\<close> answers for the split root and nothing exists there,
  \<open>process_split\<close> returns the one line \<open>SplitMissing\<close>, no error line and the file system
  as it was. When \<^verbatim>\<open>stat\<close> answers for the three paths, the split root exists and nothing
  exists at the image or at the index subdirectory path, it returns the line
  \<open>SubdirMissing\<close> followed by one \<open>MissingPath\<close> line for each of the two paths at which
  nothing exists, in the order image, index, and for no other; no scan line, no error
  line, the file system as it was. In both cases nothing is raised. When \<^verbatim>\<open>stat\<close> fails
  for one of the paths asked, with an error that pathlib does not read as absence,
  \<open>process_split\<close> raises that error and leaves the file system as it was. Nothing is
  said of a subdirectory path at which something other than a directory exists.
\<close>

theorem process_split_structural_checks:
  "(path_exists flt fs (joinpath root split) = Inr False \<longrightarrow>
      process_split h lc flt fs root split image_dirname index_dirname ie ic dd =
        (Inr ([SplitMissing split (human_relpath (joinpath root split) root)], []), fs))
   \<and> (path_exists flt fs (joinpath root split) = Inr True
        \<and> path_exists flt fs (joinpath (joinpath root split) image_dirname) = Inr a
        \<and> path_exists flt fs (joinpath (joinpath root split) index_dirname) = Inr b
        \<and> (\<not> a \<or> \<not> b) \<longrightarrow>
      process_split h lc flt fs root split image_dirname index_dirname ie ic dd =
        (Inr (SubdirMissing split image_dirname index_dirname
              # map (\<lambda>d. MissingPath (human_relpath d root))
                  (filter (\<lambda>d. path_exists flt fs d = Inr False)
                     [joinpath (joinpath root split) image_dirname,
                      joinpath (joinpath root split) index_dirname]),
              []),
         fs))
   \<and> (path_exists flt fs (joinpath root split) = Inl err
        \<or> path_exists flt fs (joinpath root split) = Inr True
           \<and> path_exists flt fs (joinpath (joinpath root split) image_dirname) = Inl err
        \<or> path_exists flt fs (joinpath root split) = Inr True
           \<and> path_exists flt fs (joinpath (joinpath root split) image_dirname) = Inr a
           \<and> path_exists flt fs (joinpath (joinpath root split) index_dirname) = Inl err \<longrightarrow>
      process_split h lc flt fs root split image_dirname index_dirname ie ic dd =
        (Inl err, fs))"
  using process_split_no_split[of flt fs root split h lc image_dirname index_dirname ie ic dd]
    process_split_no_subdir[of flt fs root split image_dirname a index_dirname b h lc ie ic dd]
    process_split_root_error[of flt fs root split err h lc image_dirname index_dirname ie ic dd]
    process_split_image_error[of flt fs root split image_dirname err h lc index_dirname ie ic dd]
    process_split_index_error[of flt fs root split image_dirname a index_dirname err h lc ie ic dd]
  by blast

theorem process_split_structural_checks_witness:
  "path_exists no_faults demo_fs (joinpath [''d''] ''test'') = Inr False
   \<and> process_split (\<lambda>k. 0) ascii_lower no_faults demo_fs [''d''] ''test'' ''image'' ''index''
        False False True =
       (Inr ([SplitMissing ''test'' ''test''], []), demo_fs)
   \<and> path_exists no_faults demo_fs (joinpath [''d''] ''valid'') = Inr True
   \<and> path_exists no_faults demo_fs (joinpath (joinpath [''d''] ''valid'') ''image'') = Inr True
   \<and> path_exists no_faults demo_fs (joinpath (joinpath [''d''] ''valid'') ''index'') = Inr False
   \<and> process_split (\<lambda>k. 0) ascii_lower no_faults demo_fs [''d''] ''valid'' ''image'' ''index''
        False False True =
       (Inr ([SubdirMissing ''valid'' ''image'' ''index'', MissingPath ''valid/index''], []),
        demo_fs)
   \<and> path_exists long_name_faults demo_fs (joinpath [''d''] (replicate 300 CHR ''a''))
       = Inl NameTooLong
   \<and> process_split (\<lambda>k. 0) ascii_lower long_name_faults demo_fs [''d'']
        (replicate 300 CHR ''a'') ''image'' ''index'' False False True
       = (Inl NameTooLong, demo_fs)"
proof -
  note l = long_split_check
  have r: "human_relpath (joinpath [''d''] ''test'') [''d''] = ''test''"
    "human_relpath (joinpath (joinpath [''d''] ''valid'') ''index'') [''d''] = ''valid/index''"
    by (simp_all add: path_eval)
  show ?thesis
    using process_split_structural_checks[where flt = no_faults and fs = demo_fs
        and root = "[''d'']" and split = "''test''" and h = "\<lambda>k. 0" and lc = ascii_lower
        and image_dirname = "''image''" and index_dirname = "''index''" and ie = False
        and ic = False and dd = True]
      process_split_structural_checks[where flt = no_faults and fs = demo_fs
        and root = "[''d'']" and split = "''valid''" and h = "\<lambda>k. 0" and lc = ascii_lower
        and image_dirname = "''image''" and index_dirname = "''index''" and ie = False
        and ic = False and dd = True and a = True and b = False]
      process_split_structural_checks[where flt = long_name_faults and fs = demo_fs
        and root = "[''d'']" and split = "replicate 300 CHR ''a''" and h = "\<lambda>k. 0"
        and lc = ascii_lower and image_dirname = "''image''" and index_dirname = "''index''"
        and ie = False and ic = False and dd = True and err = NameTooLong]
    by (simp add: demo_test_check demo_valid_checks l r)
qed

text \<open>
  Claim C3, as stated, at the split \<^verbatim>\<open>test\<close> of \<open>demo_fs\<close>, which does not exist, with the
  delete flag unset: the report is the split-missing line alone and does not say that
  the run was a dry run.
\<close>

theorem dry_run_report_counterexample:
  "process_split (\<lambda>k. 0) ascii_lower no_faults demo_fs [''d''] ''test'' ''image'' ''index''
      False False False
   = (Inr ([SplitMissing ''test'' ''test''], []), demo_fs)
   \<and> DryRun \<notin> set [SplitMissing ''test'' ''test'']"
  by (simp add: process_split_no_split[OF demo_test_check] path_eval)

text \<open>
  Claim C3, amended. With the delete flag unset \<open>process_split\<close> leaves the file system
  as it was, whatever the split and also when it raises, and returns no error line; and
  when the split root and both subdirectories exist and the two listings raise nothing,
  its report is the report of the scan followed by the line \<open>DryRun\<close>.
\<close>

theorem process_split_dry_run_frame:
  "snd (process_split h lc flt fs root split image_dirname index_dirname ie ic False) = fs
   \<and> (fst (process_split h lc flt fs root split image_dirname index_dirname ie ic False)
         = Inr (rep, errs) \<longrightarrow> errs = [])
   \<and> (path_exists flt fs (joinpath root split) = Inr True
        \<and> path_exists flt fs (joinpath (joinpath root split) image_dirname) = Inr True
        \<and> path_exists flt fs (joinpath (joinpath root split) index_dirname) = Inr True
        \<and> list_files flt fs (joinpath (joinpath root split) image_dirname) = Inr image_files
        \<and> list_files flt fs (joinpath (joinpath root split) index_dirname) = Inr index_files
        \<longrightarrow>
      fst (process_split h lc flt fs root split image_dirname index_dirname ie ic False) =
        Inr (scan_report h lc root split image_files index_files ie ic @ [DryRun], []))"
  using process_split_frame[of h lc flt fs root split image_dirname index_dirname ie ic]
    process_split_dry_errors[of h lc flt fs root split image_dirname index_dirname ie ic
      rep errs]
    process_split_dry_run[of flt fs root split image_dirname index_dirname image_files
      index_files h lc ie ic]
  by auto

theorem process_split_dry_run_frame_witness:
  "path_exists no_faults demo_fs (joinpath [''d''] ''train'') = Inr True
   \<and> path_exists no_faults demo_fs (joinpath (joinpath [''d''] ''train'') ''image'') = Inr True
   \<and> path_exists no_faults demo_fs (joinpath (joinpath [''d''] ''train'') ''index'') = Inr True
   \<and> process_split (\<lambda>k. 0) ascii_lower no_faults demo_fs [''d''] ''train'' ''image'' ''index''
        True False False
      = (Inr ([ScanDone ''train'' 3 3, OrphanImageCount 1, PreviewItem ''train/image/c.jpg'',
               OrphanIndexCount 1, PreviewItem ''train/index/d.idx'', DryRun], []),
         demo_fs)"
proof -
  have s: "scan_report (\<lambda>k. 0) ascii_lower [''d''] ''train''
       [[''d'', ''train'', ''image'', ''b.jpg''], [''d'', ''train'', ''image'', ''a.jpg''],
        [''d'', ''train'', ''image'', ''c.jpg'']]
       [[''d'', ''train'', ''index'', ''a.idx''], [''d'', ''train'', ''index'', ''d.idx''],
        [''d'', ''train'', ''index'', ''b.idx'']] True False =
     [ScanDone ''train'' 3 3, OrphanImageCount 1, PreviewItem ''train/image/c.jpg'',
      OrphanIndexCount 1, PreviewItem ''train/index/d.idx'']"
    unfolding scan_report_def
    by (simp add: Let_def demo_train_orphans preview_lines_def human_relpath_def
        double_root_def str_relative_def)
  show ?thesis
    using process_split_dry_run_frame[of "\<lambda>k. 0" ascii_lower no_faults demo_fs "[''d'']"
        "''train''" "''image''" "''index''" True False _ _
        "[[''d'', ''train'', ''image'', ''b.jpg''], [''d'', ''train'', ''image'', ''a.jpg''],
          [''d'', ''train'', ''image'', ''c.jpg'']]"
        "[[''d'', ''train'', ''index'', ''a.idx''], [''d'', ''train'', ''index'', ''d.idx''],
          [''d'', ''train'', ''index'', ''b.idx'']]"]
    by (simp add: demo_train_checks demo_train_lists s prod_eq_iff)
qed

text \<open>
  Claim C2, as stated, at the split \<^verbatim>\<open>valid\<close> of \<open>demo_fs\<close> with the delete flag set: the image
  \<^verbatim>\<open>a.jpg\<close> has no counterpart, since there is no index directory, and is an orphan of the
  two listings; but \<open>process_split\<close> stops at the check of the subdirectories, removes
  nothing and reports no count of deletions.
\<close>

theorem delete_guard_counterexample:
  "list_files no_faults demo_fs [''d'', ''valid'', ''image'']
     = Inr [[''d'', ''valid'', ''image'', ''a.jpg'']]
   \<and> list_files no_faults demo_fs [''d'', ''valid'', ''index''] = Inr []
   \<and> [''d'', ''valid'', ''image'', ''a.jpg'']
       \<in> set (fst (compute_orphans (\<lambda>k. 0)
            (collect_keys_map ascii_lower [[''d'', ''valid'', ''image'', ''a.jpg'']] False False)
            (collect_keys_map ascii_lower [] False False)))
   \<and> process_split (\<lambda>k. 0) ascii_lower no_faults demo_fs [''d''] ''valid'' ''image'' ''index''
        False False True =
       (Inr ([SubdirMissing ''valid'' ''image'' ''index'', MissingPath ''valid/index''], []),
        demo_fs)"
proof -
  have 1: "list_files no_faults demo_fs [''d'', ''valid'', ''image'']
     = Inr [[''d'', ''valid'', ''image'', ''a.jpg'']]"
    by (simp add: fs_eval)
  have 2: "list_files no_faults demo_fs [''d'', ''valid'', ''index''] = Inr []"
    by (simp add: fs_eval)
  have 3: "[''d'', ''valid'', ''image'', ''a.jpg'']
       \<in> set (fst (compute_orphans (\<lambda>k. 0)
            (collect_keys_map ascii_lower [[''d'', ''valid'', ''image'', ''a.jpg'']] False False)
            (collect_keys_map ascii_lower [] False False)))"
    by (simp add: orphan_eval key_eval pure_path_parts_def)
  have 4: "process_split (\<lambda>k. 0) ascii_lower no_faults demo_fs [''d''] ''valid'' ''image''
        ''index'' False False True =
       (Inr ([SubdirMissing ''valid'' ''image'' ''index'', MissingPath ''valid/index''], []),
        demo_fs)"
  proof -
    have r: "human_relpath (joinpath (joinpath [''d''] ''valid'') ''index'') [''d'']
        = ''valid/index''"
      by (simp add: path_eval)
    show ?thesis
      unfolding process_split_no_subdir[OF demo_valid_checks, simplified]
      by (simp add: demo_valid_checks r)
  qed
  from 1 2 3 4 show ?thesis by simp
qed

text \<open>
  Claim C2, amended. \<open>delete_files\<close> tries every file of its list: it counts the files
  whose removal does not fail, records one entry, the path's string with the error, for
  each file whose removal fails, in the order of the list, and returns the file system
  without the files it counted; a failure stops nothing. A removal fails only for an
  entry that is a directory or that the operating system protects: a path with no
  entry counts as a success. When the delete flag is set, the split root and both
  subdirectories exist and the two listings raise nothing, \<open>process_split\<close> does this for
  the image orphans and then for the index orphans, reports for each side the count of
  successes out of the number of orphans, and returns the error entries of both sides as
  error lines.
\<close>

theorem delete_phase_contract:
  "delete_files fs files =
     (length (filter (\<lambda>f. unlink_failure fs f = None) files),
      failure_entries fs files,
      filter (\<lambda>pe. \<not> (fst pe \<in> set files \<and> unlink_failure fs (fst pe) = None)) fs)
   \<and> unlink_failure fs f =
       (case map_of fs f of
          None \<Rightarrow> None
        | Some e \<Rightarrow> if kind e = Directory then Some IsADirectory else unlink_error e)
   \<and> (path_exists flt fs (joinpath root split) = Inr True
        \<and> path_exists flt fs (joinpath (joinpath root split) image_dirname) = Inr True
        \<and> path_exists flt fs (joinpath (joinpath root split) index_dirname) = Inr True
        \<and> list_files flt fs (joinpath (joinpath root split) image_dirname) = Inr image_files
        \<and> list_files flt fs (joinpath (joinpath root split) index_dirname) = Inr index_files
        \<longrightarrow>
      process_split h lc flt fs root split image_dirname index_dirname ie ic True =
       (let orphans = compute_orphans h (collect_keys_map lc image_files ie ic)
                        (collect_keys_map lc index_files ie ic)
        in (Inr (scan_report h lc root split image_files index_files ie ic
                 @ [DeletedImage
                      (length (filter (\<lambda>f. unlink_failure fs f = None) (fst orphans)))
                      (length (fst orphans)),
                    DeletedIndex
                      (length (filter (\<lambda>f. unlink_failure fs f = None) (snd orphans)))
                      (length (snd orphans))],
                 map (DeleteFailedImage split) (failure_entries fs (fst orphans))
                 @ map (DeleteFailedIndex split) (failure_entries fs (snd orphans))),
            filter (\<lambda>pe. \<not> (fst pe \<in> set (fst orphans) \<union> set (snd orphans)
                            \<and> unlink_failure fs (fst pe) = None)) fs)))"
  using delete_files_outcome[of fs files] unlink_failure_map_of[of fs f]
    process_split_delete[of flt fs root split image_dirname index_dirname image_files
      index_files h lc ie ic]
  by blast

theorem delete_phase_contract_witness:
  "path_exists no_faults demo_fs (joinpath [''d''] ''train'') = Inr True
   \<and> path_exists no_faults demo_fs (joinpath (joinpath [''d''] ''train'') ''image'') = Inr True
   \<and> path_exists no_faults demo_fs (joinpath (joinpath [''d''] ''train'') ''index'') = Inr True
   \<and> fst (process_split (\<lambda>k. 0) ascii_lower no_faults demo_fs [''d''] ''train'' ''image''
        ''index'' True False True) =
       Inr ([ScanDone ''train'' 3 3, OrphanImageCount 1, PreviewItem ''train/image/c.jpg'',
             OrphanIndexCount 1, PreviewItem ''train/index/d.idx'',
             DeletedImage 1 1, DeletedIndex 0 1],
            [DeleteFailedIndex ''train'' (''/d/train/index/d.idx'', PermissionDenied)])
   \<and> snd (process_split (\<lambda>k. 0) ascii_lower no_faults demo_fs [''d''] ''train'' ''image''
        ''index'' True False True) =
       filter (\<lambda>pe. fst pe \<noteq> [''d'', ''train'', ''image'', ''c.jpg'']) demo_fs"
proof -
  have s: "scan_report (\<lambda>k. 0) ascii_lower [''d''] ''train''
       [[''d'', ''train'', ''image'', ''b.jpg''], [''d'', ''train'', ''image'', ''a.jpg''],
        [''d'', ''train'', ''image'', ''c.jpg'']]
       [[''d'', ''train'', ''index'', ''a.idx''], [''d'', ''train'', ''index'', ''d.idx''],
        [''d'', ''train'', ''index'', ''b.idx'']] True False =
     [ScanDone ''train'' 3 3, OrphanImageCount 1, PreviewItem ''train/image/c.jpg'',
      OrphanIndexCount 1, PreviewItem ''train/index/d.idx'']"
    unfolding scan_report_def
    by (simp add: Let_def demo_train_orphans preview_lines_def human_relpath_def
        double_root_def str_relative_def)
  have "process_split (\<lambda>k. 0) ascii_lower no_faults demo_fs [''d''] ''train'' ''image''
        ''index'' True False True =
      (Inr ([ScanDone ''train'' 3 3, OrphanImageCount 1, PreviewItem ''train/image/c.jpg'',
             OrphanIndexCount 1, PreviewItem ''train/index/d.idx'',
             DeletedImage 1 1, DeletedIndex 0 1],
            [DeleteFailedIndex ''train'' (''/d/train/index/d.idx'', PermissionDenied)]),
       filter (\<lambda>pe. fst pe \<noteq> [''d'', ''train'', ''image'', ''c.jpg'']) demo_fs)"
    using delete_phase_contract[of demo_fs "[]" "[]" no_faults "[''d'']" "''train''" "''image''"
        "''index''"
        "[[''d'', ''train'', ''image'', ''b.jpg''], [''d'', ''train'', ''image'', ''a.jpg''],
          [''d'', ''train'', ''image'', ''c.jpg'']]"
        "[[''d'', ''train'', ''index'', ''a.idx''], [''d'', ''train'', ''index'', ''d.idx''],
          [''d'', ''train'', ''index'', ''b.idx'']]"
        "\<lambda>k. 0" ascii_lower True False]
    unfolding s
    by (auto simp: Let_def demo_train_checks demo_train_lists demo_train_orphans
        demo_train_failures failure_entries_def str_path_def double_root_def
        intro!: filter_cong)
  then show ?thesis
    by (simp add: demo_train_checks)
qed

text \<open>
  Claim C5, as stated, at the split \<^verbatim>\<open>test\<close> of \<open>preview_fs\<close>, with eleven image orphans:
  ten are previewed and one more exists beyond the preview, but the additional line of
  the report gives the number 11, the total, and no line gives the number of orphans
  beyond the preview.
\<close>

theorem preview_total_counterexample:
  "fst (process_split (\<lambda>k. 0) ascii_lower no_faults preview_fs [''p''] ''test'' ''image''
        ''index'' False False False) =
     Inr ([ScanDone ''test'' 11 0, OrphanImageCount 11,
           PreviewItem ''test/image/a.png'', PreviewItem ''test/image/b.png'',
           PreviewItem ''test/image/c.png'', PreviewItem ''test/image/d.png'',
           PreviewItem ''test/image/e.png'', PreviewItem ''test/image/f.png'',
           PreviewItem ''test/image/g.png'', PreviewItem ''test/image/h.png'',
           PreviewItem ''test/image/i.png'', PreviewItem ''test/image/j.png'',
           TotalLine 11, OrphanIndexCount 0, DryRun], [])
   \<and> length (fst (compute_orphans (\<lambda>k. 0)
        (collect_keys_map ascii_lower
           [[''p'', ''test'', ''image'', ''k.png''], [''p'', ''test'', ''image'', ''c.png''],
            [''p'', ''test'', ''image'', ''a.png''], [''p'', ''test'', ''image'', ''e.png''],
            [''p'', ''test'', ''image'', ''b.png''], [''p'', ''test'', ''image'', ''j.png''],
            [''p'', ''test'', ''image'', ''d.png''], [''p'', ''test'', ''image'', ''g.png''],
            [''p'', ''test'', ''image'', ''f.png''], [''p'', ''test'', ''image'', ''i.png''],
            [''p'', ''test'', ''image'', ''h.png'']] False False)
        (collect_keys_map ascii_lower [] False False)))
       - 10 = 1"
  by (simp add: process_split_dry_run[OF preview_checks preview_lists] preview_scan_report
      preview_orphans)

text \<open>
  Claim C5, amended. When the split root and both subdirectories exist and the two
  listings raise nothing, the report of \<open>process_split\<close> starts with the numbers of files
  scanned on the two sides and the number of image orphans, then the first ten, at most,
  of the image orphans in sorted order, then, when there are more than ten, a line with
  the total number of image orphans; then the same three for the index orphans. The
  sorted list is a permutation of the orphans, and the orphans beyond the preview are
  the total minus ten.
\<close>

theorem process_split_report:
  assumes "path_exists flt fs (joinpath root split) = Inr True"
    and "path_exists flt fs (joinpath (joinpath root split) image_dirname) = Inr True"
    and "path_exists flt fs (joinpath (joinpath root split) index_dirname) = Inr True"
    and "list_files flt fs (joinpath (joinpath root split) image_dirname) = Inr image_files"
    and "list_files flt fs (joinpath (joinpath root split) index_dirname) = Inr index_files"
  shows
    "(let orphans = compute_orphans h (collect_keys_map lc image_files ie ic)
                      (collect_keys_map lc index_files ie ic);
          oi = fst orphans;
          ox = snd orphans
      in (\<exists>act errs.
            fst (process_split h lc flt fs root split image_dirname index_dirname ie ic dd) =
            Inr ([ScanDone split (length image_files) (length index_files),
                  OrphanImageCount (length oi)]
                 @ map (\<lambda>p. PreviewItem (human_relpath p root)) (take 10 (sort oi))
                 @ (if 10 < length oi then [TotalLine (length oi)] else [])
                 @ [OrphanIndexCount (length ox)]
                 @ map (\<lambda>p. PreviewItem (human_relpath p root)) (take 10 (sort ox))
                 @ (if 10 < length ox then [TotalLine (length ox)] else [])
                 @ act, errs))
         \<and> sorted (sort oi) \<and> mset (sort oi) = mset oi
         \<and> length (take 10 (sort oi)) = min 10 (length oi)
         \<and> length (drop 10 (sort oi)) = length oi - 10
         \<and> sorted (sort ox) \<and> mset (sort ox) = mset ox
         \<and> length (take 10 (sort ox)) = min 10 (length ox)
         \<and> length (drop 10 (sort ox)) = length ox - 10)"
proof -
  have "\<exists>act errs.
      fst (process_split h lc flt fs root split image_dirname index_dirname ie ic dd) =
      Inr (scan_report h lc root split image_files index_files ie ic @ act, errs)"
  proof (cases dd)
    case True
    then show ?thesis
      using process_split_delete[OF assms, of h lc ie ic] by (simp add: Let_def)
  next
    case False
    then show ?thesis
      using process_split_dry_run[OF assms, of h lc ie ic] by simp
  qed
  then show ?thesis
    by (simp add: scan_report_def preview_lines_def Let_def min_def)
qed

theorem process_split_report_witness:
  "path_exists no_faults preview_fs (joinpath [''p''] ''test'') = Inr True
   \<and> path_exists no_faults preview_fs (joinpath (joinpath [''p''] ''test'') ''image'') = Inr True
   \<and> path_exists no_faults preview_fs (joinpath (joinpath [''p''] ''test'') ''index'') = Inr True
   \<and> (\<exists>act errs.
        fst (process_split (\<lambda>k. 0) ascii_lower no_faults preview_fs [''p''] ''test'' ''image''
          ''index'' False False False) =
        Inr ([ScanDone ''test'' 11 0, OrphanImageCount 11,
              PreviewItem ''test/image/a.png'', PreviewItem ''test/image/b.png'',
              PreviewItem ''test/image/c.png'', PreviewItem ''test/image/d.png'',
              PreviewItem ''test/image/e.png'', PreviewItem ''test/image/f.png'',
              PreviewItem ''test/image/g.png'', PreviewItem ''test/image/h.png'',
              PreviewItem ''test/image/i.png'', PreviewItem ''test/image/j.png'',
              TotalLine 11, OrphanIndexCount 0] @ act, errs))"
  using process_split_report[OF preview_checks preview_lists, of "\<lambda>k. 0" ascii_lower
      False False False]
  by (simp add: preview_checks Let_def preview_orphans human_relpath_def double_root_def
      str_relative_def eval_nat_numeral)

end
